theory Spec2Isabelle
  imports Complex_Main "HOL-Library.Multiset"
begin

section \<open>Data model\<close>

text \<open>
  Dates are JavaScript \<open>Date\<close> values, modelled by their time value: an integer number of
  milliseconds since the epoch. The server's local time is \<open>tz\<close> milliseconds ahead of
  UTC, a fixed offset (0 for UTC, the scheduler's own default; no daylight saving), so a
  local calendar day is a block of \<open>msPerDay\<close> milliseconds and \<open>setHours(0, 0, 0, 0)\<close>
  rounds the local time down to a multiple of it.
  One request reads the clock once: every \<open>new Date()\<close> of one handler is the same \<open>now\<close>.
\<close>

datatype status = Pending | InProgress | Completed

datatype priority = Low | Medium | High

record checklistItem =
  itemText :: string
  completed :: bool

record task =
  task_id :: nat
  title :: string
  status :: status
  priority :: priority
  dueDate :: "int option"
  assignedTo :: "nat list"
  createdAt :: int
  updatedAt :: int
  todoChecklist :: "checklistItem list"
  progress :: int
  reminderSent :: "bool option"
  reminderSentAt :: "int option"
  activityLog :: "(nat \<times> string \<times> string \<times> string) list"

definition msPerDay :: int where
  "msPerDay = 24 * 60 * 60 * 1000"

text \<open>\<open>d.setHours(0, 0, 0, 0)\<close> and \<open>d.setHours(23, 59, 59, 999)\<close>.\<close>

definition startOfDay :: "int \<Rightarrow> int \<Rightarrow> int" where
  "startOfDay tz t = t - (t + tz) mod msPerDay"

definition endOfDay :: "int \<Rightarrow> int \<Rightarrow> int" where
  "endOfDay tz t = startOfDay tz t + (msPerDay - 1)"

section \<open>Double arithmetic\<close>

text \<open>
  The numbers of the source are IEEE 754 doubles. A double is modelled by the real number
  it stands for. \<open>fl\<close> rounds a real number to the nearest double: a significand of 53
  bits, a tie going to the even significand. Division, multiplication and addition are
  the exact operation followed by \<open>fl\<close>. The exponent range is taken to be unbounded;
  the values computed here are far from overflow and from the subnormal range. Counts
  and array lengths are integers below \<open>2 ^ 53\<close> and are doubles as they are.
\<close>

text \<open>The number of binary digits of a natural number.\<close>

fun bits :: "nat \<Rightarrow> nat" where
  "bits n = (if n = 0 then 0 else Suc (bits (n div 2)))"

text \<open>The binary exponent of a positive real: \<open>2 powi expo x \<le> x < 2 powi (expo x + 1)\<close>.\<close>

definition expo :: "real \<Rightarrow> int" where
  "expo x = (if 1 \<le> x then int (bits (nat \<lfloor>x\<rfloor>)) - 1
             else - int (bits (nat (\<lceil>1 / x\<rceil> - 1))))"

text \<open>The nearest integer, a tie going to the even one.\<close>

definition roundEven :: "real \<Rightarrow> int" where
  "roundEven z =
     (let f = \<lfloor>z\<rfloor>; r = z - of_int f
      in if r < 1 / 2 then f else if 1 / 2 < r then f + 1
         else if even f then f else f + 1)"

definition flPos :: "real \<Rightarrow> real" where
  "flPos x = of_int (roundEven (x * 2 powi (52 - expo x))) * 2 powi (expo x - 52)"

definition fl :: "real \<Rightarrow> real" where
  "fl x = (if x = 0 then 0 else if 0 < x then flPos x else - flPos (- x))"

definition fdiv :: "real \<Rightarrow> real \<Rightarrow> real" where
  "fdiv a b = fl (a / b)"

definition fmul :: "real \<Rightarrow> real \<Rightarrow> real" where
  "fmul a b = fl (a * b)"

definition fadd :: "real \<Rightarrow> real \<Rightarrow> real" where
  "fadd a b = fl (a + b)"

text \<open>\<open>Math.round\<close> of a double: the nearest integer, a half rounding up.\<close>

definition jsRound :: "real \<Rightarrow> int" where
  "jsRound x = \<lfloor>x + 1 / 2\<rfloor>"

section \<open>Streak computation\<close>

text \<open>The body of both streak loops: \<open>allTasks.some(...)\<close> for the day that starts at
  \<open>checkDate\<close> (always a local midnight).\<close>

definition completedOnDay :: "int \<Rightarrow> task list \<Rightarrow> int \<Rightarrow> bool" where
  "completedOnDay tz allTasks checkDate =
     list_ex (\<lambda>t. status t = Completed \<and> checkDate \<le> updatedAt t
                  \<and> updatedAt t \<le> endOfDay tz checkDate) allTasks"

text \<open>The loop of \<open>getProductivityStats\<close>: \<open>while (true)\<close>, left by the \<open>break\<close> of a day
  without completion or by \<open>if (currentStreak > 365) break\<close> after the increment.\<close>

function streakLoop :: "int \<Rightarrow> task list \<Rightarrow> int \<Rightarrow> nat \<Rightarrow> nat" where
  "streakLoop tz allTasks checkDate streak =
     (if completedOnDay tz allTasks checkDate
      then (if streak + 1 > 365 then streak + 1
            else streakLoop tz allTasks (checkDate - msPerDay) (streak + 1))
      else streak)"
  by pat_completeness auto
termination
  by (relation "measure (\<lambda>(tz, ts, d, c). 366 - c)") auto

definition currentStreak :: "int \<Rightarrow> int \<Rightarrow> task list \<Rightarrow> nat" where
  "currentStreak tz now allTasks = streakLoop tz allTasks (startOfDay tz now) 0"

text \<open>The loop of \<open>getTeamProductivityStats\<close>: \<open>while (currentStreak < 365)\<close>.\<close>

function teamStreakLoop :: "int \<Rightarrow> task list \<Rightarrow> int \<Rightarrow> nat \<Rightarrow> nat" where
  "teamStreakLoop tz allTasks checkDate streak =
     (if streak < 365
      then (if completedOnDay tz allTasks checkDate
            then teamStreakLoop tz allTasks (checkDate - msPerDay) (streak + 1)
            else streak)
      else streak)"
  by pat_completeness auto
termination
  by (relation "measure (\<lambda>(tz, ts, d, c). 365 - c)") auto

definition teamCurrentStreak :: "int \<Rightarrow> int \<Rightarrow> task list \<Rightarrow> nat" where
  "teamCurrentStreak tz now allTasks = teamStreakLoop tz allTasks (startOfDay tz now) 0"

text \<open>The streak as the specification words it: day \<open>k\<close> before \<open>now\<close> counts when some
  task is Completed with \<open>updatedAt\<close> on that local calendar day.\<close>

definition dayCounts :: "int \<Rightarrow> task list \<Rightarrow> int \<Rightarrow> nat \<Rightarrow> bool" where
  "dayCounts tz allTasks now k =
     list_ex (\<lambda>t. status t = Completed
                  \<and> (updatedAt t + tz) div msPerDay = (now + tz) div msPerDay - int k)
       allTasks"

text \<open>A history with one completion on each of the last \<open>n\<close> days, at the same time of
  day as \<open>now\<close>.\<close>

definition completedAt :: "nat \<Rightarrow> int \<Rightarrow> task" where
  "completedAt i t =
     \<lparr>task_id = i, title = ''t'', status = Completed, priority = Medium, dueDate = None,
      assignedTo = [1], createdAt = t, updatedAt = t, todoChecklist = [], progress = 100,
      reminderSent = None, reminderSentAt = None, activityLog = []\<rparr>"

definition dailyCompletions :: "int \<Rightarrow> nat \<Rightarrow> task list" where
  "dailyCompletions now n = map (\<lambda>k. completedAt k (now - int k * msPerDay)) [0..<n]"

section \<open>Productivity score of one user\<close>

datatype error = NotFound | Forbidden

definition completedTasks :: "task list \<Rightarrow> task list" where
  "completedTasks allTasks = filter (\<lambda>t. status t = Completed) allTasks"

text \<open>\<open>task.dueDate && new Date(task.updatedAt) <= new Date(task.dueDate)\<close>\<close>

definition onTime :: "task \<Rightarrow> bool" where
  "onTime t = (case dueDate t of None \<Rightarrow> False | Some d \<Rightarrow> updatedAt t \<le> d)"

definition onTimeCompletions :: "task list \<Rightarrow> nat" where
  "onTimeCompletions allTasks = length (filter onTime (completedTasks allTasks))"

definition onTimeRate :: "task list \<Rightarrow> int" where
  "onTimeRate allTasks =
     (if length (completedTasks allTasks) > 0
      then jsRound (fmul (fdiv (of_nat (onTimeCompletions allTasks))
                                (of_nat (length (completedTasks allTasks)))) 100)
      else 0)"

text \<open>The \<open>forEach\<close> that accumulates \<open>checklistStats.total\<close> and
  \<open>checklistStats.completed\<close>.\<close>

definition checklistStep :: "task \<Rightarrow> nat \<times> nat \<Rightarrow> nat \<times> nat" where
  "checklistStep t acc =
     (if length (todoChecklist t) > 0
      then (fst acc + length (todoChecklist t),
            snd acc + length (filter completed (todoChecklist t)))
      else acc)"

definition checklistStats :: "task list \<Rightarrow> nat \<times> nat" where
  "checklistStats allTasks = fold checklistStep allTasks (0, 0)"

definition checklistCompletionRate :: "task list \<Rightarrow> int" where
  "checklistCompletionRate allTasks =
     (if fst (checklistStats allTasks) > 0
      then jsRound (fmul (fdiv (of_nat (snd (checklistStats allTasks)))
                                (of_nat (fst (checklistStats allTasks)))) 100)
      else 0)"

definition overdueTasks :: "int \<Rightarrow> task list \<Rightarrow> nat" where
  "overdueTasks now allTasks =
     length (filter (\<lambda>t. status t \<noteq> Completed
                          \<and> (case dueDate t of None \<Rightarrow> False | Some d \<Rightarrow> d < now)) allTasks)"

text \<open>The five weights and their rounded, capped sum, the same lines in both handlers:
  task count, completed count, on-time rate, streak and checklist rate come in. The
  literals \<open>0.25\<close> and \<open>0.15\<close> are the doubles nearest to them; the sum is taken from left
  to right.\<close>

definition weightedScore :: "nat \<Rightarrow> nat \<Rightarrow> real \<Rightarrow> nat \<Rightarrow> real \<Rightarrow> int" where
  "weightedScore nTasks nDone onTimeR streak checklistR =
     (let totalTaskWeight = fmul (min (fdiv (of_nat nTasks) 10) 1) 20;
          completionRateWeight = fmul (fdiv (of_nat nDone) (of_nat (max nTasks 1))) 25;
          onTimeWeight = fmul onTimeR (fl (25 / 100));
          streakWeight = fmul (min (fdiv (of_nat streak) 7) 1) 15;
          checklistWeight = fmul checklistR (fl (15 / 100))
      in min 100 (jsRound (fadd (fadd (fadd (fadd totalTaskWeight completionRateWeight)
                                         onTimeWeight) streakWeight) checklistWeight)))"

definition productivityScore :: "int \<Rightarrow> int \<Rightarrow> task list \<Rightarrow> int" where
  "productivityScore tz now allTasks =
     weightedScore (length allTasks) (length (completedTasks allTasks))
       (of_int (onTimeRate allTasks)) (currentStreak tz now allTasks)
       (of_int (checklistCompletionRate allTasks))"

text \<open>\<open>parseInt(period) || 30\<close>: \<open>None\<close> is a period that does not parse.\<close>

definition daysToAnalyze :: "int option \<Rightarrow> int" where
  "daysToAnalyze period = (case period of None \<Rightarrow> 30 | Some n \<Rightarrow> if n = 0 then 30 else n)"

text \<open>A time value further than 8.64e15 milliseconds from the epoch is no date: the
  \<open>Date\<close> becomes invalid (\<open>None\<close>).\<close>

definition timeClip :: "int \<Rightarrow> int option" where
  "timeClip t = (if \<bar>t\<bar> \<le> 8640000000000000 then Some t else None)"

text \<open>\<open>startDate.setDate(startDate.getDate() - daysToAnalyze)\<close>, then
  \<open>startDate.setHours(0, 0, 0, 0)\<close>, which leaves an invalid date invalid; each of the two
  clips its result.\<close>

definition startDate :: "int \<Rightarrow> int \<Rightarrow> int \<Rightarrow> int option" where
  "startDate tz now days =
     (case timeClip (now - days * msPerDay) of
        None \<Rightarrow> None
      | Some t \<Rightarrow> timeClip (startOfDay tz t))"

text \<open>\<open>task.updatedAt >= startDate\<close> and \<open>task.createdAt >= startDate\<close>: a comparison with
  an invalid date is false.\<close>

definition notBefore :: "int option \<Rightarrow> int \<Rightarrow> bool" where
  "notBefore start t = (case start of None \<Rightarrow> False | Some s \<Rightarrow> s \<le> t)"

definition completedInPeriod :: "int option \<Rightarrow> task list \<Rightarrow> task list" where
  "completedInPeriod start allTasks =
     filter (\<lambda>t. status t = Completed \<and> notBefore start (updatedAt t)) allTasks"

definition createdInPeriod :: "int option \<Rightarrow> task list \<Rightarrow> task list" where
  "createdInPeriod start allTasks = filter (\<lambda>t. notBefore start (createdAt t)) allTasks"

text \<open>\<open>Task.find({ assignedTo: userId })\<close>\<close>

definition tasksOf :: "task list \<Rightarrow> nat \<Rightarrow> task list" where
  "tasksOf db userId = filter (\<lambda>t. userId \<in> set (assignedTo t)) db"

record productivityStats =
  ps_period :: int
  ps_totalTasks :: nat
  ps_completedTasks :: nat
  ps_pendingTasks :: nat
  ps_inProgressTasks :: nat
  ps_overdueTasks :: nat
  ps_productivityScore :: int
  ps_tasksCompleted :: nat
  ps_tasksCreated :: nat
  ps_onTimeRate :: int
  ps_currentStreak :: nat
  ps_checklistTotal :: nat
  ps_checklistCompleted :: nat
  ps_checklistRate :: int

text \<open>The response of \<open>getProductivityStats\<close> for a list of tasks (the weekly trend, the
  average completion time and the per-priority counts are left out).\<close>

definition userStats :: "int \<Rightarrow> int \<Rightarrow> int option \<Rightarrow> task list \<Rightarrow> productivityStats" where
  "userStats tz now period allTasks =
     \<lparr>ps_period = daysToAnalyze period,
      ps_totalTasks = length allTasks,
      ps_completedTasks = length (completedTasks allTasks),
      ps_pendingTasks = length (filter (\<lambda>t. status t = Pending) allTasks),
      ps_inProgressTasks = length (filter (\<lambda>t. status t = InProgress) allTasks),
      ps_overdueTasks = overdueTasks now allTasks,
      ps_productivityScore = productivityScore tz now allTasks,
      ps_tasksCompleted =
        length (completedInPeriod (startDate tz now (daysToAnalyze period)) allTasks),
      ps_tasksCreated =
        length (createdInPeriod (startDate tz now (daysToAnalyze period)) allTasks),
      ps_onTimeRate = onTimeRate allTasks,
      ps_currentStreak = currentStreak tz now allTasks,
      ps_checklistTotal = fst (checklistStats allTasks),
      ps_checklistCompleted = snd (checklistStats allTasks),
      ps_checklistRate = checklistCompletionRate allTasks\<rparr>"

text \<open>\<open>getProductivityStats\<close>: the requester's own tasks, or those of \<open>targetUserId\<close>
  when the requester is an admin.\<close>

definition getProductivityStats ::
  "int \<Rightarrow> int \<Rightarrow> task list \<Rightarrow> nat \<Rightarrow> bool \<Rightarrow> nat option \<Rightarrow> int option \<Rightarrow> productivityStats" where
  "getProductivityStats tz now db reqUser reqIsAdmin targetUserId period =
     (let userId = (case targetUserId of
                      Some u \<Rightarrow> if reqIsAdmin then u else reqUser
                    | None \<Rightarrow> reqUser)
      in userStats tz now period (tasksOf db userId))"

section \<open>Team aggregation\<close>

record memberStats =
  m_user :: nat
  m_totalTasks :: nat
  m_completedTasks :: nat
  m_completedInPeriod :: nat
  m_pendingTasks :: nat
  m_inProgressTasks :: nat
  m_overdueTasks :: nat
  m_onTimeRate :: int
  m_currentStreak :: nat
  m_productivityScore :: int

text \<open>In the team handler the checklist rate enters the score without \<open>Math.round\<close>.\<close>

definition teamChecklistRate :: "task list \<Rightarrow> real" where
  "teamChecklistRate allTasks =
     (if fst (checklistStats allTasks) > 0
      then fmul (fdiv (of_nat (snd (checklistStats allTasks)))
                      (of_nat (fst (checklistStats allTasks)))) 100
      else 0)"

definition memberOf :: "int \<Rightarrow> int \<Rightarrow> int option \<Rightarrow> task list \<Rightarrow> nat \<Rightarrow> memberStats" where
  "memberOf tz now start db u =
     (let allTasks = tasksOf db u
      in \<lparr>m_user = u,
          m_totalTasks = length allTasks,
          m_completedTasks = length (completedTasks allTasks),
          m_completedInPeriod = length (completedInPeriod start allTasks),
          m_pendingTasks = length (filter (\<lambda>t. status t = Pending) allTasks),
          m_inProgressTasks = length (filter (\<lambda>t. status t = InProgress) allTasks),
          m_overdueTasks = overdueTasks now allTasks,
          m_onTimeRate = onTimeRate allTasks,
          m_currentStreak = teamCurrentStreak tz now allTasks,
          m_productivityScore =
            weightedScore (length allTasks) (length (completedTasks allTasks))
              (of_int (onTimeRate allTasks)) (teamCurrentStreak tz now allTasks)
              (teamChecklistRate allTasks)\<rparr>)"

text \<open>\<open>teamStats.sort((a, b) => b.productivityScore - a.productivityScore)\<close>: the sort of
  an array is stable, as insertion by key is.\<close>

definition sortByScore :: "memberStats list \<Rightarrow> memberStats list" where
  "sortByScore teamStats = sort_key (\<lambda>s. - m_productivityScore s) teamStats"

record teamAverage =
  avgProductivityScore :: int
  totalCompleted :: nat
  avgOnTimeRate :: int
  totalOverdue :: nat

text \<open>The two averages are \<open>Math.round(sum / teamStats.length)\<close>. The quotient is written
  as the exact one: for a sum between 0 and 100 per member, as the scores and on-time
  rates of the handler give, the double quotient rounds to the same integer
  (\<open>mean_round_exact\<close>).\<close>

definition teamAverageOf :: "memberStats list \<Rightarrow> teamAverage" where
  "teamAverageOf teamStats =
     \<lparr>avgProductivityScore =
        (if length teamStats > 0
         then jsRound (of_int (foldl (\<lambda>sum s. sum + m_productivityScore s) 0 teamStats)
                         / of_nat (length teamStats))
         else 0),
      totalCompleted = foldl (\<lambda>sum s. sum + m_completedInPeriod s) 0 teamStats,
      avgOnTimeRate =
        (if length teamStats > 0
         then jsRound (of_int (foldl (\<lambda>sum s. sum + m_onTimeRate s) 0 teamStats)
                         / of_nat (length teamStats))
         else 0),
      totalOverdue = foldl (\<lambda>sum s. sum + m_overdueTasks s) 0 teamStats\<rparr>"

record teamReport =
  r_period :: int
  r_teamSize :: nat
  r_teamAverage :: teamAverage
  r_members :: "memberStats list"

text \<open>What the handler does with the per-member snapshots once they are computed.\<close>

definition aggregate :: "int \<Rightarrow> memberStats list \<Rightarrow> teamReport" where
  "aggregate days teamStats =
     (let sorted = sortByScore teamStats
      in \<lparr>r_period = days, r_teamSize = length sorted,
          r_teamAverage = teamAverageOf sorted, r_members = sorted\<rparr>)"

text \<open>\<open>getTeamProductivityStats\<close>. The admin check, the public-domain check and the query
  for the organisation's users are helpers outside this module: their results come in as
  \<open>reqIsAdmin\<close>, \<open>domainIsPublic\<close> and \<open>orgUsers\<close>.\<close>

definition getTeamProductivityStats ::
  "int \<Rightarrow> int \<Rightarrow> task list \<Rightarrow> bool \<Rightarrow> bool \<Rightarrow> nat list \<Rightarrow> int option \<Rightarrow> error + teamReport" where
  "getTeamProductivityStats tz now db reqIsAdmin domainIsPublic orgUsers period =
     (if \<not> reqIsAdmin then Inl Forbidden
      else if domainIsPublic then Inl Forbidden
      else Inr (aggregate (daysToAnalyze period)
                  (map (memberOf tz now (startDate tz now (daysToAnalyze period)) db) orgUsers)))"

section \<open>Due-date reminder scan\<close>

record user =
  user_id :: nat
  u_name :: string
  u_email :: "string option"

record notification =
  n_recipient :: nat
  n_type :: string
  n_title :: string
  n_message :: string
  n_task :: nat

text \<open>One call of \<open>transporter.sendMail\<close>; \<open>mail_task\<close> is the task the link in the mail
  points to (\<open>taskUrl\<close> ends with the task's id).\<close>

record mail =
  mail_to :: string
  mail_name :: string
  mail_taskTitle :: string
  mail_dueDate :: "int option"
  mail_priority :: priority
  mail_task :: nat
  mail_delivered :: bool

text \<open>The task collection, the user collection, the notification collection and the
  mails handed to the transport.\<close>

record world =
  w_tasks :: "task list"
  w_users :: "user list"
  w_notifications :: "notification list"
  w_outbox :: "mail list"

text \<open>What the collaborators do during one scan: whether \<open>Task.find\<close> resolves, whether
  \<open>Notification.create\<close> resolves for a task and a recipient, whether
  \<open>transporter.sendMail\<close> resolves for a task and an address, whether
  \<open>Task.findByIdAndUpdate\<close> resolves for a task, and the \<open>new Date()\<close> of that write.\<close>

record env =
  findOk :: bool
  createOk :: "nat \<Rightarrow> nat \<Rightarrow> bool"
  sendMailOk :: "nat \<Rightarrow> string \<Rightarrow> bool"
  updateOk :: "nat \<Rightarrow> bool"
  updateTime :: "nat \<Rightarrow> int"

text \<open>The query of \<open>checkDueDateReminders\<close>: \<open>status: { $ne: Completed }\<close>,
  \<open>dueDate: { $gt: now, $lte: twentyFourHoursFromNow }\<close>, \<open>reminderSent: { $ne: true }\<close>.\<close>

definition needsReminder :: "int \<Rightarrow> task \<Rightarrow> bool" where
  "needsReminder now t =
     (let twentyFourHoursFromNow = now + 24 * 60 * 60 * 1000
      in status t \<noteq> Completed
         \<and> (case dueDate t of None \<Rightarrow> False
             | Some d \<Rightarrow> now < d \<and> d \<le> twentyFourHoursFromNow)
         \<and> reminderSent t \<noteq> Some True)"

text \<open>\<open>.populate('assignedTo', 'name email')\<close>: each reference is replaced by its user
  document; a reference without a document is dropped.\<close>

definition populate :: "user list \<Rightarrow> task \<Rightarrow> user list" where
  "populate us t = List.map_filter (\<lambda>i. find (\<lambda>u. user_id u = i) us) (assignedTo t)"

definition tasksNeedingReminders :: "int \<Rightarrow> world \<Rightarrow> (task \<times> user list) list" where
  "tasksNeedingReminders now w =
     map (\<lambda>t. (t, populate (w_users w) t)) (filter (needsReminder now) (w_tasks w))"

text \<open>\<open>sendDueDateReminder\<close>: one \<open>sendMail\<close>; a rejection is caught inside and turned into
  the return value \<open>{ success: false }\<close>, nothing is thrown.\<close>

definition sendDueDateReminder ::
  "env \<Rightarrow> string \<Rightarrow> string \<Rightarrow> string \<Rightarrow> int option \<Rightarrow> priority \<Rightarrow> nat \<Rightarrow> world
     \<Rightarrow> world \<times> bool" where
  "sendDueDateReminder e email recipientName taskTitle due prio taskRef w =
     (let ok = sendMailOk e taskRef email
      in (w\<lparr>w_outbox := w_outbox w @
              [\<lparr>mail_to = email, mail_name = recipientName, mail_taskTitle = taskTitle,
                mail_dueDate = due, mail_priority = prio, mail_task = taskRef,
                mail_delivered = ok\<rparr>]\<rparr>, ok))"

text \<open>The value of one promise of \<open>reminderPromises\<close>: \<open>null\<close>, \<open>{ success: true, ... }\<close> or
  \<open>{ success: false, ... }\<close>.\<close>

datatype outcome = Skipped | Success | Failure

text \<open>The callback of \<open>task.assignedTo.map\<close>. A user without an address (\<open>!user.email\<close>) is
  skipped. Inside the \<open>try\<close>, a throwing \<open>Notification.create\<close> leads to the \<open>catch\<close>; the
  value that \<open>sendDueDateReminder\<close> returns is not looked at.\<close>

definition remindUser :: "env \<Rightarrow> task \<Rightarrow> user \<Rightarrow> world \<Rightarrow> world \<times> outcome" where
  "remindUser e t u w =
     (case u_email u of
        None \<Rightarrow> (w, Skipped)
      | Some address \<Rightarrow>
          if address = [] then (w, Skipped)
          else if createOk e (task_id t) (user_id u)
          then (let w1 = w\<lparr>w_notifications := w_notifications w @
                            [\<lparr>n_recipient = user_id u, n_type = ''reminder'',
                              n_title = ''Task Due Soon'',
                              n_message = [CHR 0x22] @ title t @ [CHR 0x22]
                                            @ '' is due in less than 24 hours!'',
                              n_task = task_id t\<rparr>]\<rparr>;
                    (w2, sent) = sendDueDateReminder e address (u_name u) (title t)
                                   (dueDate t) (priority t) (task_id t) w1
                in (w2, Success))
          else (w, Failure))"

text \<open>\<open>Promise.all(reminderPromises)\<close>: every assignee is handled, the results come back
  in the order of the assignees. The callbacks are run one after the other here.\<close>

fun remindAll :: "env \<Rightarrow> task \<Rightarrow> user list \<Rightarrow> world \<Rightarrow> world \<times> outcome list" where
  "remindAll e t [] w = (w, [])"
| "remindAll e t (u # us) w =
     (let (w1, r) = remindUser e t u w;
          (w2, rs) = remindAll e t us w1
      in (w2, r # rs))"

text \<open>\<open>Task.findByIdAndUpdate(task._id, { reminderSent: true, reminderSentAt: new Date() })\<close>:
  the two fields of the document with that id are set; there is no condition on their
  previous values.\<close>

definition findByIdAndUpdate :: "nat \<Rightarrow> int \<Rightarrow> task list \<Rightarrow> task list" where
  "findByIdAndUpdate i sentAt ts =
     map (\<lambda>t. if task_id t = i
               then t\<lparr>reminderSent := Some True, reminderSentAt := Some sentAt\<rparr>
               else t) ts"

definition successCount :: "outcome list \<Rightarrow> nat" where
  "successCount results = length (filter (\<lambda>r. r = Success) results)"

text \<open>The \<open>for\<close> loop over the tasks found. The second component tells whether the loop
  was left by an exception (a rejected update), which the outer \<open>catch\<close> receives.\<close>

fun processTasks :: "env \<Rightarrow> (task \<times> user list) list \<Rightarrow> world \<Rightarrow> world \<times> bool" where
  "processTasks e [] w = (w, False)"
| "processTasks e ((t, assignees) # rest) w =
     (let (w1, results) = remindAll e t assignees w
      in if successCount results > 0
         then (if updateOk e (task_id t)
               then processTasks e rest
                      (w1\<lparr>w_tasks := findByIdAndUpdate (task_id t) (updateTime e (task_id t))
                                        (w_tasks w1)\<rparr>)
               else (w1, True))
         else processTasks e rest w1)"

datatype scanResult = Processed nat | ScanFailed

definition checkDueDateReminders :: "env \<Rightarrow> int \<Rightarrow> world \<Rightarrow> world \<times> scanResult" where
  "checkDueDateReminders e now w =
     (if \<not> findOk e then (w, ScanFailed)
      else (let found = tasksNeedingReminders now w;
                (w1, thrown) = processTasks e found w
            in (w1, if thrown then ScanFailed else Processed (length found))))"

definition notificationsFor :: "nat \<Rightarrow> world \<Rightarrow> notification list" where
  "notificationsFor i w = filter (\<lambda>n. n_task n = i) (w_notifications w)"

definition mailsFor :: "nat \<Rightarrow> world \<Rightarrow> mail list" where
  "mailsFor i w = filter (\<lambda>m. mail_task m = i) (w_outbox w)"

text \<open>A notification for a task and a recipient is in the store; a mail for a task has
  been handed to the transport for an address.\<close>

definition notified :: "nat \<Rightarrow> nat \<Rightarrow> world \<Rightarrow> bool" where
  "notified i uid w = list_ex (\<lambda>x. n_task x = i \<and> n_recipient x = uid) (w_notifications w)"

definition mailed :: "nat \<Rightarrow> string \<Rightarrow> world \<Rightarrow> bool" where
  "mailed i address w = list_ex (\<lambda>m. mail_task m = i \<and> mail_to m = address) (w_outbox w)"

section \<open>Status and checklist updates\<close>






section \<open>Sample data\<close>

text \<open>Two small histories: completions today, yesterday and three days ago; and
  completions yesterday and the day before only.\<close>

definition gapHistory :: "int \<Rightarrow> task list" where
  "gapHistory now =
     [completedAt 0 now, completedAt 1 (now - msPerDay), completedAt 2 (now - 3 * msPerDay)]"

definition yesterdayHistory :: "int \<Rightarrow> task list" where
  "yesterdayHistory now =
     [completedAt 0 (now - msPerDay), completedAt 1 (now - 2 * msPerDay)]"

text \<open>A user with ten tasks: six Completed of which five on time, twenty checklist items
  of which fifteen completed, completions today, yesterday and the day before.\<close>

definition mkTask :: "nat \<Rightarrow> status \<Rightarrow> int \<Rightarrow> int option \<Rightarrow> bool list \<Rightarrow> task" where
  "mkTask i st upd due items =
     \<lparr>task_id = i, title = ''task'', status = st, priority = Medium, dueDate = due,
      assignedTo = [7], createdAt = upd - msPerDay, updatedAt = upd,
      todoChecklist = map (\<lambda>b. \<lparr>itemText = ''item'', completed = b\<rparr>) items,
      progress = 0, reminderSent = None, reminderSentAt = None, activityLog = []\<rparr>"

definition exampleNow :: int where
  "exampleNow = 1700000000000"

definition exampleTasks :: "task list" where
  "exampleTasks =
     [mkTask 0 Completed exampleNow (Some (exampleNow + msPerDay)) [True, True, True, True],
      mkTask 1 Completed (exampleNow - msPerDay) (Some exampleNow) [True, True, True, True],
      mkTask 2 Completed (exampleNow - 2 * msPerDay) (Some exampleNow) [True, True, True],
      mkTask 3 Completed exampleNow (Some (exampleNow + 1)) [],
      mkTask 4 Completed (exampleNow - msPerDay) (Some exampleNow) [],
      mkTask 5 Completed exampleNow (Some (exampleNow - msPerDay)) [True, True],
      mkTask 6 Pending (exampleNow - 5 * msPerDay) None [False, False, False],
      mkTask 7 InProgress (exampleNow - 5 * msPerDay) None [True, True, False, False],
      mkTask 8 Pending (exampleNow - 5 * msPerDay) (Some (exampleNow + msPerDay)) [],
      mkTask 9 InProgress (exampleNow - 5 * msPerDay) None []]"

text \<open>A team of three member snapshots with given scores.\<close>

definition memberWith :: "nat \<Rightarrow> int \<Rightarrow> memberStats" where
  "memberWith u score =
     \<lparr>m_user = u, m_totalTasks = 10, m_completedTasks = 5, m_completedInPeriod = 2,
      m_pendingTasks = 3, m_inProgressTasks = 2, m_overdueTasks = 1, m_onTimeRate = 80,
      m_currentStreak = 1, m_productivityScore = score\<rparr>"

definition exampleTeam :: "memberStats list" where
  "exampleTeam = [memberWith 1 90, memberWith 2 50, memberWith 3 70]"

text \<open>A world for the scan at time \<open>1000\<close>: task 1 is due in ten hours and has had no
  reminder, task 2 is due in five hours and has had one; user 7 is assigned to both.\<close>

definition dueTask :: "nat \<Rightarrow> int \<Rightarrow> nat list \<Rightarrow> bool option \<Rightarrow> task" where
  "dueTask i due assignees flag =
     \<lparr>task_id = i, title = ''report'', status = Pending, priority = High,
      dueDate = Some due, assignedTo = assignees, createdAt = 0, updatedAt = 0,
      todoChecklist = [], progress = 0, reminderSent = flag,
      reminderSentAt = (if flag = Some True then Some 500 else None), activityLog = []\<rparr>"

definition member :: "nat \<Rightarrow> string \<Rightarrow> user" where
  "member i address = \<lparr>user_id = i, u_name = ''member'', u_email = Some address\<rparr>"

definition remWorld :: world where
  "remWorld =
     \<lparr>w_tasks = [dueTask 1 (1000 + 10 * 60 * 60 * 1000) [7] (Some False),
                 dueTask 2 (1000 + 5 * 60 * 60 * 1000) [7] (Some True)],
      w_users = [member 7 ''a@x.io''],
      w_notifications = [], w_outbox = []\<rparr>"

text \<open>Collaborators that all succeed; the update of a scan happens at \<open>sentAt\<close>.\<close>

definition okEnv :: "int \<Rightarrow> env" where
  "okEnv sentAt =
     \<lparr>findOk = True, createOk = (\<lambda>t u. True), sendMailOk = (\<lambda>t a. True),
      updateOk = (\<lambda>t. True), updateTime = (\<lambda>t. sentAt)\<rparr>"

text \<open>The world after one scan of \<open>remWorld\<close>, and after a second scan right after it.\<close>

definition afterFirstScan :: world where
  "afterFirstScan = fst (checkDueDateReminders (okEnv 2000) 1000 remWorld)"

definition afterSecondScan :: world where
  "afterSecondScan = fst (checkDueDateReminders (okEnv 3000) 1000 afterFirstScan)"

text \<open>Collaborators where notifications are stored but every \<open>sendMail\<close> is rejected.\<close>

definition mailDownEnv :: "int \<Rightarrow> env" where
  "mailDownEnv sentAt =
     \<lparr>findOk = True, createOk = (\<lambda>t u. True), sendMailOk = (\<lambda>t a. False),
      updateOk = (\<lambda>t. True), updateTime = (\<lambda>t. sentAt)\<rparr>"

text \<open>Tasks around the edges of the reminder window of a scan at time \<open>1000\<close>: due in
  exactly 24 hours, in 24 hours and a minute, exactly now, and in one hour but Completed.\<close>

definition windowWorld :: world where
  "windowWorld =
     \<lparr>w_tasks = [dueTask 1 (1000 + 24 * 60 * 60 * 1000) [7] None,
                 dueTask 2 (1000 + 24 * 60 * 60 * 1000 + 60 * 1000) [7] None,
                 dueTask 3 1000 [7] (Some False),
                 (dueTask 4 (1000 + 60 * 60 * 1000) [7] None)\<lparr>status := Completed\<rparr>],
      w_users = [member 7 ''a@x.io''],
      w_notifications = [], w_outbox = []\<rparr>"

text \<open>Two scans that overlap: both have run their query on \<open>remWorld\<close> before either one
  writes; the first then handles what it found, and the second handles the same list.\<close>

definition overlapFirst :: world where
  "overlapFirst =
     fst (processTasks (okEnv 2000) (tasksNeedingReminders 1000 remWorld) remWorld)"

definition overlapSecond :: world where
  "overlapSecond =
     fst (processTasks (okEnv 3000) (tasksNeedingReminders 1000 remWorld) overlapFirst)"

text \<open>The test \<open>!user.email\<close> of the scan, negated.\<close>

definition hasEmail :: "user \<Rightarrow> bool" where
  "hasEmail u = (case u_email u of None \<Rightarrow> False | Some a \<Rightarrow> a \<noteq> [])"






text \<open>\<open>windowWorld\<close> after a scan at time \<open>1000\<close> with collaborators that succeed.\<close>

definition windowAfter :: world where
  "windowAfter = fst (checkDueDateReminders (okEnv 2000) 1000 windowWorld)"

text \<open>A collection with the ten tasks of user 7 and one task of user 8, and the team
  report over the two users for a server five and a half hours ahead of UTC.\<close>

definition exampleDb :: "task list" where
  "exampleDb =
     (mkTask 10 Completed exampleNow None [True])\<lparr>assignedTo := [8]\<rparr> # exampleTasks"

definition exampleReport :: teamReport where
  "exampleReport =
     aggregate 30
       (map (memberOf 19800000 exampleNow (startDate 19800000 exampleNow 30) exampleDb)
          [8, 7])"

section \<open>Properties of the double arithmetic\<close>

declare bits.simps [simp del]

lemma bits_bounds: "0 < n \<Longrightarrow> 2 ^ (bits n - 1) \<le> n \<and> n < 2 ^ bits n"
proof (induction n rule: bits.induct)
  case (1 n)
  show ?case
  proof (cases "n div 2 = 0")
    case True
    then have "n = 1" using "1.prems" by (simp add: div_eq_0_iff) 
    then show ?thesis by (simp add: bits.simps)
  next
    case False
    then have ih: "2 ^ (bits (n div 2) - 1) \<le> n div 2 \<and> n div 2 < 2 ^ bits (n div 2)"
      using "1.IH" "1.prems" by simp
    have b: "bits n = Suc (bits (n div 2))" using "1.prems" by (subst bits.simps) simp
    have pos: "0 < bits (n div 2)" using False by (subst bits.simps) simp
    then obtain k where k: "bits (n div 2) = Suc k" by (cases "bits (n div 2)") auto
    have lo: "2 * 2 ^ k \<le> n" using ih k by simp linarith
    have hi: "n < 2 * 2 ^ Suc k" using ih k by simp linarith
    show ?thesis using b k lo hi by simp
  qed
qed

lemma expo_lower: assumes "0 < x" shows "2 powi (expo x) \<le> x"
proof (cases "1 \<le> x")
  case True
  then have f: "0 < nat \<lfloor>x\<rfloor>" by simp
  have "(2::real) ^ (bits (nat \<lfloor>x\<rfloor>) - 1) \<le> real (nat \<lfloor>x\<rfloor>)"
    using bits_bounds[OF f] by (metis of_nat_le_iff of_nat_numeral of_nat_power)
  also have "\<dots> \<le> x" using True by simp
  finally have "(2::real) ^ (bits (nat \<lfloor>x\<rfloor>) - 1) \<le> x" .
  moreover have "0 < bits (nat \<lfloor>x\<rfloor>)" using f by (subst bits.simps) simp
  ultimately show ?thesis using True
    by (simp add: expo_def power_int_def nat_diff_distrib' of_nat_diff)
next
  case False
  define N where "N = nat (\<lceil>1 / x\<rceil> - 1)"
  have x1: "1 < 1 / x" using False assms by simp
  then have c: "2 \<le> \<lceil>1 / x\<rceil>" by linarith
  have N: "0 < N" "int N + 1 = \<lceil>1 / x\<rceil>" unfolding N_def using c by linarith+
  have "N < 2 ^ bits N" using bits_bounds[OF N(1)] by simp
  then have "int N + 1 \<le> 2 ^ bits N"
    by (metis of_nat_less_iff of_nat_numeral of_nat_power zless_imp_add1_zle)
  then have "\<lceil>1 / x\<rceil> \<le> 2 ^ bits N" using N by simp
  then have "1 / x \<le> 2 ^ bits N" by (simp add: ceiling_le_iff)
  then have "1 / 2 ^ bits N \<le> x" using assms
    by (metis divide_divide_eq_right divide_le_eq le_divide_eq_1_pos mult.commute mult.right_neutral zero_less_numeral zero_less_power)
  then have "1 / 2 ^ bits N \<le> x" .
  moreover have "expo x = - int (bits N)" using False by (simp add: expo_def N_def)
  ultimately show ?thesis by (simp add: power_int_minus inverse_eq_divide)
qed

lemma roundEven_err: "\<bar>of_int (roundEven z) - z\<bar> \<le> 1 / 2"
  unfolding roundEven_def Let_def by (auto; linarith)

lemma roundEven_nonneg: "0 \<le> z \<Longrightarrow> 0 \<le> roundEven z"
  unfolding roundEven_def Let_def by (auto; linarith)

lemma fl_err: assumes "0 < x" shows "\<bar>fl x - x\<bar> \<le> x / 2 ^ 53"
proof -
  define e where "e = expo x"
  define p :: real where "p = 2 powi (e - 52)"
  define m where "m = roundEven (x / p)"
  have p: "0 < p" by (simp add: p_def)
  have inv: "(2::real) powi (52 - e) = 1 / p"
    using power_int_minus[of "2::real" "e - 52"] by (simp add: p_def inverse_eq_divide)
  have fl: "fl x = of_int m * p"
    using assms by (simp add: fl_def flPos_def e_def[symmetric] inv m_def p_def[symmetric])
  have "fl x - x = p * (of_int m - x / p)" using p by (simp add: fl field_simps)
  then have "\<bar>fl x - x\<bar> = p * \<bar>of_int m - x / p\<bar>" using p by (simp add: abs_mult)
  also have "\<dots> \<le> p * (1 / 2)"
    using roundEven_err[of "x / p"] p unfolding m_def by (intro mult_left_mono) simp_all
  finally have a: "\<bar>fl x - x\<bar> \<le> p / 2" by simp
  have "p = 2 powi e * 2 powi (- 52)"
    unfolding p_def using power_int_add[of "2::real" e "- 52"] by simp
  then have pe: "p = 2 powi e / 2 ^ 52" by (simp add: power_int_minus inverse_eq_divide)
  have "2 powi e \<le> x" unfolding e_def by (rule expo_lower[OF assms])
  then have "p / 2 \<le> x / 2 ^ 53" by (simp add: pe field_simps)
  then show ?thesis using a by linarith
qed

lemma fl_nonneg: "0 \<le> x \<Longrightarrow> 0 \<le> fl x"
  by (auto simp: fl_def flPos_def intro!: mult_nonneg_nonneg roundEven_nonneg)

lemma fl_zero: "fl 0 = 0" by (simp add: fl_def)



lemma expo_upper: assumes "0 < x" shows "x < 2 powi (expo x + 1)"
proof (cases "1 \<le> x")
  case True
  then have f: "0 < nat \<lfloor>x\<rfloor>" by simp
  have "nat \<lfloor>x\<rfloor> < 2 ^ bits (nat \<lfloor>x\<rfloor>)" using bits_bounds[OF f] by simp
  then have "int (nat \<lfloor>x\<rfloor>) + 1 \<le> 2 ^ bits (nat \<lfloor>x\<rfloor>)"
    by (metis of_nat_less_iff of_nat_numeral of_nat_power zless_imp_add1_zle)
  then have "\<lfloor>x\<rfloor> + 1 \<le> 2 ^ bits (nat \<lfloor>x\<rfloor>)" using True by simp
  then have "real_of_int (\<lfloor>x\<rfloor> + 1) \<le> real_of_int (2 ^ bits (nat \<lfloor>x\<rfloor>))"
    by (simp only: of_int_le_iff)
  then have "x < 2 ^ bits (nat \<lfloor>x\<rfloor>)" by simp linarith
  moreover have "expo x + 1 = int (bits (nat \<lfloor>x\<rfloor>))" using True by (simp add: expo_def)
  ultimately show ?thesis by simp
next
  case False
  define N where "N = nat (\<lceil>1 / x\<rceil> - 1)"
  have x1: "1 < 1 / x" using False assms by simp
  then have c: "2 \<le> \<lceil>1 / x\<rceil>" by linarith
  have N: "0 < N" "int N + 1 = \<lceil>1 / x\<rceil>" unfolding N_def using c by linarith+
  have bp: "0 < bits N" using N(1) by (subst bits.simps) simp
  have "real N < 1 / x" using N(2) by linarith
  moreover have "(2::real) ^ (bits N - 1) \<le> real N"
    using bits_bounds[OF N(1)] by (metis of_nat_le_iff of_nat_numeral of_nat_power)
  ultimately have "(2::real) ^ (bits N - 1) < 1 / x" by linarith
  then have "x * 2 ^ (bits N - 1) < 1" using assms by (simp add: field_simps)
  then have a: "x < 1 / 2 ^ (bits N - 1)" by (simp add: field_simps)
  have "expo x + 1 = - int (bits N - 1)" using False bp by (simp add: expo_def N_def)
  then show ?thesis using a by (simp add: power_int_minus inverse_eq_divide)
qed


text \<open>A double quotient of a sum of scores by the number of members has the same
  \<open>Math.round\<close> as the exact quotient.\<close>

lemma roundEven_of_int: "roundEven (of_int m) = m"
  by (simp add: roundEven_def)

lemma fl_exact:
  assumes "0 < x" and "x * 2 powi (52 - expo x) = of_int m"
  shows "fl x = x"
proof -
  have "(2::real) powi (52 - expo x) * 2 powi (expo x - 52) = 2 powi ((52 - expo x) + (expo x - 52))"
    by (rule power_int_add[symmetric]) simp
  then have inv: "(2::real) powi (52 - expo x) * 2 powi (expo x - 52) = 1" by simp
  have "fl x = of_int m * 2 powi (expo x - 52)"
    using assms by (simp add: fl_def flPos_def roundEven_of_int)
  also have "\<dots> = x * (2 powi (52 - expo x) * 2 powi (expo x - 52))"
    using assms(2) by (simp add: mult.assoc)
  finally show ?thesis using inv by simp
qed

lemma half_int_exact:
  assumes "1 \<le> k" and "k \<le> 2 ^ 51"
  shows "fl (real_of_int k - 1 / 2) = real_of_int k - 1 / 2"
proof -
  define x where "x = real_of_int k - 1 / 2"
  have x: "0 < x" using assms(1) by (simp add: x_def)
  have "real_of_int k \<le> real_of_int (2 ^ 51)" using assms(2) by (simp only: of_int_le_iff)
  then have xl: "x < 2 ^ 52" by (simp add: x_def)
  have "2 powi (expo x) \<le> x" by (rule expo_lower[OF x])
  then have "(2::real) powi (expo x) < 2 powi 52" using xl by simp
  then have e: "expo x < 52"
    by (rule power_int_le_imp_less_exp[rotated]) simp_all
  define j where "j = nat (51 - expo x)"
  have "52 - expo x = int j + 1" using e by (simp add: j_def)
  then have "(2::real) powi (52 - expo x) = 2 powi (int j + 1)" by (simp only:)
  also have "\<dots> = 2 powi (int j) * 2" by (rule power_int_add_1) simp
  finally have "(2::real) powi (52 - expo x) = 2 ^ j * 2" by simp
  then have "x * 2 powi (52 - expo x) = of_int ((2 * k - 1) * 2 ^ j)"
    by (simp add: x_def algebra_simps)
  then show ?thesis using fl_exact[OF x] unfolding x_def by blast
qed

lemma mean_round_exact:
  assumes l: "0 < l" "l < 2 ^ 32" and s: "0 \<le> s" "s \<le> 100 * int l"
  shows "jsRound (fdiv (real_of_int s) (real l)) = jsRound (real_of_int s / real l)"
proof (cases "s = 0")
  case True
  then show ?thesis by (simp add: fdiv_def fl_zero)
next
  case False
  define x where "x = real_of_int s / real l"
  define y where "y = fl x"
  define k where "k = jsRound x"
  define dl :: real where "dl = 100 / 2 ^ 53"
  have rl: "0 < real l" "real l < 2 ^ 32" using l
    by (simp, metis of_nat_less_iff of_nat_numeral of_nat_power)
  have "real_of_int s \<le> real_of_int (100 * int l)" using s(2) by (simp only: of_int_le_iff)
  then have sl: "real_of_int s \<le> 100 * real l" by simp
  have x: "0 < x" "x \<le> 100" using False s(1) rl sl by (simp_all add: x_def field_simps)
  have X: "x * real l = real_of_int s" using rl by (simp add: x_def)
  have "\<bar>y - x\<bar> \<le> x / 2 ^ 53" unfolding y_def by (rule fl_err[OF x(1)])
  moreover have "x / 2 ^ 53 \<le> dl" using x(2) by (simp add: dl_def)
  ultimately have d: "\<bar>y - x\<bar> \<le> dl" by linarith
  have small: "2 * dl * real l < 1" using rl by (simp add: dl_def)
  have kf: "real_of_int k \<le> x + 1 / 2" "x + 1 / 2 < real_of_int k + 1"
    unfolding k_def jsRound_def by linarith+
  have up: "y + 1 / 2 < real_of_int k + 1"
  proof (rule ccontr)
    assume "\<not> ?thesis"
    then have "2 * real_of_int k + 2 \<le> 2 * y + 1" by linarith
    then have a: "(2 * real_of_int k + 2) * real l \<le> (2 * y + 1) * real l"
      by (rule mult_right_mono) simp
    have "(2 * x + 1) * real l < (2 * real_of_int k + 2) * real l"
    proof (rule mult_strict_right_mono)
      show "2 * x + 1 < 2 * real_of_int k + 2" using kf(2) by linarith
      show "0 < real l" by (rule rl(1))
    qed
    then have "2 * (x * real l) + real l < (2 * real_of_int k + 2) * real l"
      by (simp add: algebra_simps)
    then have "real_of_int (2 * s + int l) < real_of_int ((2 * k + 2) * int l)"
      using X by simp
    then have "2 * s + int l < (2 * k + 2) * int l" by (simp only: of_int_less_iff)
    then have "2 * s + int l + 1 \<le> (2 * k + 2) * int l" by linarith
    then have "real_of_int (2 * s + int l + 1) \<le> real_of_int ((2 * k + 2) * int l)"
      by (simp only: of_int_le_iff)
    then have b: "2 * (x * real l) + real l + 1 \<le> (2 * real_of_int k + 2) * real l"
      using X by simp
    have "(2 * y + 1) * real l \<le> (2 * x + 2 * dl + 1) * real l"
    proof (rule mult_right_mono)
      show "2 * y + 1 \<le> 2 * x + 2 * dl + 1" using d by linarith
      show "0 \<le> real l" by simp
    qed
    moreover have "(2 * x + 2 * dl + 1) * real l = 2 * (x * real l) + 2 * dl * real l + real l"
      by (simp add: algebra_simps)
    ultimately show False using a b small by linarith
  qed
  have lo_int: "(2 * k - 1) * int l \<le> 2 * s"
  proof -
    have "(2 * real_of_int k - 1) * real l \<le> (2 * x) * real l"
    proof (rule mult_right_mono)
      show "2 * real_of_int k - 1 \<le> 2 * x" using kf(1) by linarith
      show "0 \<le> real l" by simp
    qed
    then have "(2 * real_of_int k - 1) * real l \<le> 2 * (x * real l)"
      by (simp add: algebra_simps)
    then have "real_of_int ((2 * k - 1) * int l) \<le> real_of_int (2 * s)" using X by simp
    then show ?thesis by (simp only: of_int_le_iff)
  qed
  have lo: "real_of_int k \<le> y + 1 / 2"
  proof (cases "(2 * k - 1) * int l = 2 * s")
    case True
    then have "real_of_int ((2 * k - 1) * int l) = real_of_int (2 * s)" by simp
    then have "(2 * real_of_int k - 1) * real l = 2 * (x * real l)" using X by simp
    then have "(2 * real_of_int k - 1 - 2 * x) * real l = 0" by (simp add: algebra_simps)
    then have xe: "x = real_of_int k - 1 / 2" using rl(1) by simp
    have "0 < 2 * k - 1"
    proof (rule ccontr)
      assume "\<not> 0 < 2 * k - 1"
      then have "(2 * k - 1) * int l \<le> 0" using l(1) by (simp add: mult_le_0_iff)
      then show False using True False s(1) by linarith
    qed
    then have k1: "1 \<le> k" by linarith
    have "real_of_int k \<le> real_of_int 101" using xe x(2) by simp
    then have "k \<le> 101" by (simp only: of_int_le_iff)
    then have "k \<le> 2 ^ 51" by simp
    then have "y = x" unfolding y_def xe by (rule half_int_exact[OF k1])
    then show ?thesis using xe by simp
  next
    case False
    then have "(2 * k - 1) * int l + 1 \<le> 2 * s" using lo_int by linarith
    then have "real_of_int ((2 * k - 1) * int l + 1) \<le> real_of_int (2 * s)"
      by (simp only: of_int_le_iff)
    then have b: "(2 * real_of_int k - 1) * real l + 1 \<le> 2 * (x * real l)" using X by simp
    show ?thesis
    proof (rule ccontr)
      assume "\<not> ?thesis"
      then have "2 * y \<le> 2 * real_of_int k - 1" by linarith
      then have a: "(2 * y) * real l \<le> (2 * real_of_int k - 1) * real l"
        by (rule mult_right_mono) simp
      have "(2 * x - 2 * dl) * real l \<le> (2 * y) * real l"
      proof (rule mult_right_mono)
        show "2 * x - 2 * dl \<le> 2 * y" using d by linarith
        show "0 \<le> real l" by simp
      qed
      moreover have "(2 * x - 2 * dl) * real l = 2 * (x * real l) - 2 * dl * real l"
        by (simp add: algebra_simps)
      ultimately show False using a b small by linarith
    qed
  qed
  have "jsRound y = k" unfolding jsRound_def using lo up by (intro floor_unique) simp_all
  then show ?thesis by (simp add: y_def k_def x_def fdiv_def)
qed

section \<open>Properties of the streak computation\<close>

declare streakLoop.simps [simp del] teamStreakLoop.simps [simp del]

lemma streakLoop_le: "c \<le> 365 \<Longrightarrow> streakLoop tz ts d c \<le> 366"
  by (induction tz ts d c rule: streakLoop.induct) (subst streakLoop.simps, simp)

lemma teamStreakLoop_le: "c \<le> 365 \<Longrightarrow> teamStreakLoop tz ts d c \<le> 365"
  by (induction tz ts d c rule: teamStreakLoop.induct) (subst teamStreakLoop.simps, simp)

lemma day_block: "(0::int) < D \<Longrightarrow> (q * D \<le> u \<and> u \<le> q * D + (D - 1)) \<longleftrightarrow> u div D = q"
proof
  assume D: "0 < D" and h: "q * D \<le> u \<and> u \<le> q * D + (D - 1)"
  have "(u - q * D) div D = 0" using h D by (intro div_pos_pos_trivial) auto
  moreover have "(u - q * D) div D = u div D - q"
    using D div_mult_self1[of D u "- q"] by (simp add: algebra_simps)
  ultimately show "u div D = q" by simp
next
  assume D: "0 < D" and h: "u div D = q"
  have e: "u = q * D + u mod D" using div_mult_mod_eq[of u D] h by simp
  have "0 \<le> u mod D" "u mod D < D" using D by auto
  then show "q * D \<le> u \<and> u \<le> q * D + (D - 1)" using e by linarith
qed

lemma shift_day: "d - int (Suc k) * msPerDay = d - msPerDay - int k * msPerDay"
  by (simp add: algebra_simps)

lemma streakLoop_run:
  "(\<forall>k<n. completedOnDay tz ts (d - int k * msPerDay)) \<Longrightarrow>
   \<not> completedOnDay tz ts (d - int n * msPerDay) \<Longrightarrow> c + n \<le> 365 \<Longrightarrow>
   streakLoop tz ts d c = c + n"
proof (induction n arbitrary: d c)
  case 0
  then show ?case by (subst streakLoop.simps) simp
next
  case (Suc n)
  have h0: "completedOnDay tz ts d" using Suc.prems(1)[rule_format, of 0] by simp
  have h1: "\<forall>k<n. completedOnDay tz ts (d - msPerDay - int k * msPerDay)"
  proof (intro allI impI)
    fix k assume "k < n"
    then have "completedOnDay tz ts (d - int (Suc k) * msPerDay)"
      using Suc.prems(1)[rule_format, of "Suc k"] by simp
    then show "completedOnDay tz ts (d - msPerDay - int k * msPerDay)" unfolding shift_day .
  qed
  have h2: "\<not> completedOnDay tz ts (d - msPerDay - int n * msPerDay)"
    using Suc.prems(2) unfolding shift_day .
  have "streakLoop tz ts (d - msPerDay) (c + 1) = c + 1 + n"
    using Suc.IH[OF h1 h2] Suc.prems(3) by simp
  then show ?case using h0 Suc.prems(3) by (subst streakLoop.simps) simp
qed

lemma streakLoop_cap:
  "(\<forall>k<n. completedOnDay tz ts (d - int k * msPerDay)) \<Longrightarrow> 0 < n \<Longrightarrow> c + n = 366 \<Longrightarrow>
   streakLoop tz ts d c = 366"
proof (induction n arbitrary: d c)
  case 0
  then show ?case by simp
next
  case (Suc n)
  have h0: "completedOnDay tz ts d" using Suc.prems(1)[rule_format, of 0] by simp
  show ?case
  proof (cases "n = 0")
    case True
    then have "c = 365" using Suc.prems(3) by simp
    then show ?thesis using h0 by (subst streakLoop.simps) simp
  next
    case False
    have h1: "\<forall>k<n. completedOnDay tz ts (d - msPerDay - int k * msPerDay)"
    proof (intro allI impI)
      fix k assume "k < n"
      then have "completedOnDay tz ts (d - int (Suc k) * msPerDay)"
        using Suc.prems(1)[rule_format, of "Suc k"] by simp
      then show "completedOnDay tz ts (d - msPerDay - int k * msPerDay)" unfolding shift_day .
    qed
    have "streakLoop tz ts (d - msPerDay) (c + 1) = 366"
      using Suc.IH[OF h1] False Suc.prems(3) by simp
    then show ?thesis using h0 False Suc.prems(3) by (subst streakLoop.simps) simp
  qed
qed

lemma startOfDay_eq: "startOfDay tz t = ((t + tz) div msPerDay) * msPerDay - tz"
proof -
  have "(t + tz) - (t + tz) mod msPerDay = ((t + tz) div msPerDay) * msPerDay"
    by (simp add: minus_mod_eq_div_mult)
  then show ?thesis by (simp add: startOfDay_def)
qed

lemma msPerDay_pos: "0 < msPerDay" by (simp add: msPerDay_def)

lemma div_shift: "(a - int t * msPerDay) div msPerDay = a div msPerDay - int t"
  using div_mult_self1[of msPerDay a "- int t"] msPerDay_pos by (simp add: algebra_simps)

lemma completedOnDay_dayCounts:
  "completedOnDay tz ts (startOfDay tz now - int k * msPerDay) = dayCounts tz ts now k"
proof -
  define q where "q = (now + tz) div msPerDay - int k"
  have eq: "startOfDay tz now - int k * msPerDay = q * msPerDay - tz"
    by (simp add: startOfDay_eq q_def algebra_simps)
  have "(q * msPerDay - tz + tz) mod msPerDay = 0" by simp
  then have idem: "startOfDay tz (q * msPerDay - tz) = q * msPerDay - tz"
    by (simp add: startOfDay_def)
  have blk: "(q * msPerDay - tz \<le> u \<and> u \<le> q * msPerDay - tz + (msPerDay - 1))
               \<longleftrightarrow> (u + tz) div msPerDay = q" for u
    using day_block[OF msPerDay_pos, of q "u + tz"] by (simp add: algebra_simps)
  show ?thesis
    unfolding completedOnDay_def dayCounts_def endOfDay_def eq idem q_def[symmetric]
    using blk by (simp add: list_ex_iff)
qed

lemma dayCounts_daily: "dayCounts tz (dailyCompletions now n) now k \<longleftrightarrow> k < n"
proof -
  have "(now - int t * msPerDay + tz) div msPerDay = (now + tz) div msPerDay - int t" for t
    using div_shift[of "now + tz" t] by (simp add: algebra_simps)
  then show ?thesis
    by (auto simp: dayCounts_def dailyCompletions_def list_ex_iff completedAt_def)
qed

lemma currentStreak_le_366: "currentStreak tz now ts \<le> 366"
  unfolding currentStreak_def by (rule streakLoop_le) simp

lemma teamCurrentStreak_le_365: "teamCurrentStreak tz now ts \<le> 365"
  unfolding teamCurrentStreak_def by (rule teamStreakLoop_le) simp

lemma currentStreak_run:
  "(\<forall>k<n. dayCounts tz ts now k) \<Longrightarrow> \<not> dayCounts tz ts now n \<Longrightarrow> n \<le> 365 \<Longrightarrow>
   currentStreak tz now ts = n"
  unfolding currentStreak_def
  using streakLoop_run[of n tz ts "startOfDay tz now" 0]
  by (simp add: completedOnDay_dayCounts)

lemma currentStreak_cap:
  "(\<forall>k<366. dayCounts tz ts now k) \<Longrightarrow> currentStreak tz now ts = 366"
  unfolding currentStreak_def
  using streakLoop_cap[of 366 tz ts "startOfDay tz now" 0]
  by (simp add: completedOnDay_dayCounts)

lemma teamStreakLoop_cap:
  "(\<forall>k<n. completedOnDay tz ts (d - int k * msPerDay)) \<Longrightarrow> c + n = 365 \<Longrightarrow>
   teamStreakLoop tz ts d c = 365"
proof (induction n arbitrary: d c)
  case 0
  then show ?case by (subst teamStreakLoop.simps) simp
next
  case (Suc n)
  have h0: "completedOnDay tz ts d" using Suc.prems(1)[rule_format, of 0] by simp
  have h1: "\<forall>k<n. completedOnDay tz ts (d - msPerDay - int k * msPerDay)"
  proof (intro allI impI)
    fix k assume "k < n"
    then have "completedOnDay tz ts (d - int (Suc k) * msPerDay)"
      using Suc.prems(1)[rule_format, of "Suc k"] by simp
    then show "completedOnDay tz ts (d - msPerDay - int k * msPerDay)" unfolding shift_day .
  qed
  have "teamStreakLoop tz ts (d - msPerDay) (c + 1) = 365"
    using Suc.IH[OF h1] Suc.prems(2) by simp
  then show ?case using h0 Suc.prems(2) by (subst teamStreakLoop.simps) simp
qed

lemma teamCurrentStreak_cap:
  "(\<forall>k<365. dayCounts tz ts now k) \<Longrightarrow> teamCurrentStreak tz now ts = 365"
  unfolding teamCurrentStreak_def
  using teamStreakLoop_cap[of 365 tz ts "startOfDay tz now" 0]
  by (simp add: completedOnDay_dayCounts)

text \<open>
  Claim C5: the backward walk of the streak computation stops after at most 365 days, so
  the streak never exceeds 365, in the per-user path and in the per-member team path.

  The team loop (\<open>while (currentStreak < 365)\<close>) keeps the bound
  (\<open>teamCurrentStreak_le_365\<close>). The per-user loop tests \<open>currentStreak > 365\<close> after the
  increment, so it scans a 366th day and can return 366 (\<open>currentStreak_le_366\<close> is its
  bound): for a history with a completion on each of the last 366 days the per-user
  path returns 366 where the team path returns 365.
\<close>

theorem streak_of_366_days:
  "currentStreak tz now (dailyCompletions now 366) = 366
   \<and> teamCurrentStreak tz now (dailyCompletions now 366) = 365"
proof
  show "currentStreak tz now (dailyCompletions now 366) = 366"
    by (rule currentStreak_cap) (simp add: dayCounts_daily)
  show "teamCurrentStreak tz now (dailyCompletions now 366) = 365"
    by (rule teamCurrentStreak_cap) (simp add: dayCounts_daily)
qed

text \<open>
  Claim C6, as stated: the streak equals the number of consecutive calendar days, ending
  today, with a completion. With a completion on each of the last 367 days (days 0 to
  366 count, day 367 does not) that number is 367 and the computed streak is 366.
\<close>

theorem streak_capped_counterexample:
  "list_all (dayCounts 19800000 (dailyCompletions 1700000000000 367) 1700000000000) [0..<367]
   \<and> \<not> dayCounts 19800000 (dailyCompletions 1700000000000 367) 1700000000000 367
   \<and> currentStreak 19800000 1700000000000 (dailyCompletions 1700000000000 367) = 366"
proof -
  have "\<forall>k<366. dayCounts 19800000 (dailyCompletions 1700000000000 367) 1700000000000 k"
    by (simp add: dayCounts_daily)
  then have "currentStreak 19800000 1700000000000 (dailyCompletions 1700000000000 367) = 366"
    by (rule currentStreak_cap)
  then show ?thesis by (simp add: dayCounts_daily list_all_iff)
qed

text \<open>
  Claim C6, amended: when the days \<open>0, \<dots>, n - 1\<close> before today all have a completion,
  day \<open>n\<close> has none and \<open>n\<close> is at most 365, the streak of the per-user path is \<open>n\<close>.
  An empty task list has streak 0, and so has every history without a completion today.
\<close>

theorem streak_counts_run:
  "((\<forall>k<n. dayCounts tz ts now k) \<and> \<not> dayCounts tz ts now n \<and> n \<le> 365
      \<longrightarrow> currentStreak tz now ts = n)
   \<and> currentStreak tz now [] = 0
   \<and> (\<not> dayCounts tz ts now 0 \<longrightarrow> currentStreak tz now ts = 0)"
proof (intro conjI impI)
  assume "(\<forall>k<n. dayCounts tz ts now k) \<and> \<not> dayCounts tz ts now n \<and> n \<le> 365"
  then show "currentStreak tz now ts = n" using currentStreak_run by blast
next
  show "currentStreak tz now [] = 0"
    using currentStreak_run[of 0 tz "[]" now] by (simp add: dayCounts_def)
next
  assume "\<not> dayCounts tz ts now 0"
  then show "currentStreak tz now ts = 0" using currentStreak_run[of 0 tz ts now] by simp
qed

lemma gap0: "dayCounts 19800000 (gapHistory 1700000000000) 1700000000000 0"
  by (simp add: dayCounts_def gapHistory_def completedAt_def msPerDay_def)

lemma gap1: "dayCounts 19800000 (gapHistory 1700000000000) 1700000000000 1"
  by (simp add: dayCounts_def gapHistory_def completedAt_def msPerDay_def)

lemma gap2: "\<not> dayCounts 19800000 (gapHistory 1700000000000) 1700000000000 2"
  by (simp add: dayCounts_def gapHistory_def completedAt_def msPerDay_def)

lemma gap3: "dayCounts 19800000 (gapHistory 1700000000000) 1700000000000 3"
  by (simp add: dayCounts_def gapHistory_def completedAt_def msPerDay_def)

lemma yest0: "\<not> dayCounts 19800000 (yesterdayHistory 1700000000000) 1700000000000 0"
  by (simp add: dayCounts_def yesterdayHistory_def completedAt_def msPerDay_def)

lemma yest1: "dayCounts 19800000 (yesterdayHistory 1700000000000) 1700000000000 1"
  by (simp add: dayCounts_def yesterdayHistory_def completedAt_def msPerDay_def)

text \<open>The amended claim at the two histories of the specification: completions today,
  yesterday and three days ago give streak 2; completions that end yesterday give 0.\<close>

theorem streak_counts_run_witness:
  "dayCounts 19800000 (gapHistory 1700000000000) 1700000000000 0
   \<and> dayCounts 19800000 (gapHistory 1700000000000) 1700000000000 1
   \<and> \<not> dayCounts 19800000 (gapHistory 1700000000000) 1700000000000 2
   \<and> dayCounts 19800000 (gapHistory 1700000000000) 1700000000000 3
   \<and> currentStreak 19800000 1700000000000 (gapHistory 1700000000000) = 2
   \<and> \<not> dayCounts 19800000 (yesterdayHistory 1700000000000) 1700000000000 0
   \<and> dayCounts 19800000 (yesterdayHistory 1700000000000) 1700000000000 1
   \<and> currentStreak 19800000 1700000000000 (yesterdayHistory 1700000000000) = 0"
proof -
  have all: "\<forall>k<2. dayCounts 19800000 (gapHistory 1700000000000) 1700000000000 k"
    using gap0 gap1 by (auto simp: less_Suc_eq numeral_2_eq_2)
  have a: "currentStreak 19800000 1700000000000 (gapHistory 1700000000000) = 2"
    using streak_counts_run[of 2 19800000 "gapHistory 1700000000000" 1700000000000] all gap2 by simp
  have b: "currentStreak 19800000 1700000000000 (yesterdayHistory 1700000000000) = 0"
    using streak_counts_run[of 0 19800000 "yesterdayHistory 1700000000000" 1700000000000] yest0
    by simp
  show ?thesis using a b gap0 gap1 gap2 gap3 yest0 yest1 by simp
qed

section \<open>Properties of the productivity score\<close>

lemma jsRound_nonneg: "0 \<le> x \<Longrightarrow> 0 \<le> jsRound x"
  by (simp add: jsRound_def)

lemma weightedScore_le: "weightedScore n d r s c \<le> 100"
  by (simp add: weightedScore_def Let_def)

lemma fdiv_nonneg: "0 \<le> a \<Longrightarrow> 0 \<le> b \<Longrightarrow> 0 \<le> fdiv a b"
  by (simp add: fdiv_def fl_nonneg)

lemma fmul_nonneg: "0 \<le> a \<Longrightarrow> 0 \<le> b \<Longrightarrow> 0 \<le> fmul a b"
  by (simp add: fmul_def fl_nonneg)

lemma fadd_nonneg: "0 \<le> a \<Longrightarrow> 0 \<le> b \<Longrightarrow> 0 \<le> fadd a b"
  by (simp add: fadd_def fl_nonneg)

lemma weightedScore_ge: "0 \<le> r \<Longrightarrow> 0 \<le> c \<Longrightarrow> 0 \<le> weightedScore n d r s c"
  unfolding weightedScore_def Let_def
  by (intro min.boundedI jsRound_nonneg fadd_nonneg fmul_nonneg fdiv_nonneg fl_nonneg)
    simp_all

lemma onTimeRate_ge: "0 \<le> onTimeRate ts"
  by (simp add: onTimeRate_def jsRound_nonneg fmul_nonneg fdiv_nonneg)

lemma checklistCompletionRate_ge: "0 \<le> checklistCompletionRate ts"
  by (simp add: checklistCompletionRate_def jsRound_nonneg fmul_nonneg fdiv_nonneg)

lemma teamChecklistRate_ge: "0 \<le> teamChecklistRate ts"
  by (simp add: teamChecklistRate_def fmul_nonneg fdiv_nonneg)

lemma productivityScore_range: "0 \<le> productivityScore tz now ts \<and> productivityScore tz now ts \<le> 100"
  by (simp add: productivityScore_def weightedScore_le weightedScore_ge onTimeRate_ge
      checklistCompletionRate_ge)

lemma currentStreak_Nil: "currentStreak tz now [] = 0"
  unfolding currentStreak_def by (subst streakLoop.simps) (simp add: completedOnDay_def)

lemma productivityScore_Nil: "productivityScore tz now [] = 0"
  by (simp add: productivityScore_def weightedScore_def currentStreak_Nil onTimeRate_def
      checklistCompletionRate_def checklistStats_def completedTasks_def jsRound_def
      fdiv_def fmul_def fadd_def fl_zero)

text \<open>
  Claim C8: for every task list the productivity score is an integer between 0 and 100,
  and a user without tasks gets on-time rate 0, checklist rate 0 and score 0 (the
  guarded divisions take their \<open>0\<close> branch; the model is total, no error value arises).
\<close>

theorem score_bounded:
  "0 \<le> ps_productivityScore (getProductivityStats tz now db u adm tgt period)
   \<and> ps_productivityScore (getProductivityStats tz now db u adm tgt period) \<le> 100
   \<and> 0 \<le> productivityScore tz now ts \<and> productivityScore tz now ts \<le> 100
   \<and> ps_onTimeRate (userStats tz now period []) = 0
   \<and> ps_checklistRate (userStats tz now period []) = 0
   \<and> ps_productivityScore (userStats tz now period []) = 0"
  by (simp add: getProductivityStats_def Let_def userStats_def productivityScore_range
      productivityScore_Nil onTimeRate_def checklistCompletionRate_def checklistStats_def
      completedTasks_def)

lemma score_example_aux:
  assumes "length ts = 10" "length (completedTasks ts) = 6" "onTimeCompletions ts = 5"
    "checklistStats ts = (20, 15)" "currentStreak tz now ts = 3"
  shows "onTimeRate ts = 83" "checklistCompletionRate ts = 75" "productivityScore tz now ts = 73"
proof -
  have r1: "jsRound (fmul (fdiv 5 6) 100) = 83" by code_simp
  have r2: "jsRound (fmul (fdiv 15 20) 100) = 75" by code_simp
  have r3: "weightedScore 10 6 83 3 75 = 73" by code_simp
  show a: "onTimeRate ts = 83" using assms r1 by (simp add: onTimeRate_def)
  show b: "checklistCompletionRate ts = 75"
    using assms r2 by (simp add: checklistCompletionRate_def)
  show "productivityScore tz now ts = 73"
    using assms a b r3 by (simp add: productivityScore_def)
qed

text \<open>
  Claim C7: a user with exactly 10 tasks, 6 of them Completed and 5 of those on time,
  checklist totals of 20 items with 15 completed and a streak of 3 days, analysed over
  30 days, has on-time rate 83, checklist rate 75 and productivity score 73; these are
  the values in the response of \<open>getProductivityStats\<close> when the user's tasks in the
  collection are such a list.
\<close>

theorem score_example:
  assumes "length ts = 10" and "length (completedTasks ts) = 6"
    and "onTimeCompletions ts = 5" and "checklistStats ts = (20, 15)"
    and "currentStreak tz now ts = 3"
  shows "onTimeRate ts = 83 \<and> checklistCompletionRate ts = 75
         \<and> productivityScore tz now ts = 73
         \<and> ps_productivityScore (userStats tz now (Some 30) ts) = 73
         \<and> (tasksOf db u = ts \<longrightarrow>
               ps_productivityScore (getProductivityStats tz now db u adm None (Some 30)) = 73
               \<and> ps_onTimeRate (getProductivityStats tz now db u adm None (Some 30)) = 83
               \<and> ps_checklistRate (getProductivityStats tz now db u adm None (Some 30)) = 75
               \<and> ps_currentStreak (getProductivityStats tz now db u adm None (Some 30)) = 3
               \<and> ps_totalTasks (getProductivityStats tz now db u adm None (Some 30)) = 10
               \<and> ps_completedTasks (getProductivityStats tz now db u adm None (Some 30)) = 6)"
  using score_example_aux[OF assms] assms
  by (simp add: userStats_def getProductivityStats_def)

lemma ex_len: "length exampleTasks = 10"
  by (simp add: exampleTasks_def)

lemma ex_done: "length (completedTasks exampleTasks) = 6"
  by (simp add: exampleTasks_def completedTasks_def mkTask_def)

lemma ex_onTime: "onTimeCompletions exampleTasks = 5"
  by (simp add: exampleTasks_def onTimeCompletions_def completedTasks_def mkTask_def
      onTime_def exampleNow_def msPerDay_def)

lemma ex_checklist: "checklistStats exampleTasks = (20, 15)"
  by (simp add: exampleTasks_def checklistStats_def checklistStep_def mkTask_def)

lemma ex_streak: "currentStreak 19800000 exampleNow exampleTasks = 3"
  by (simp add: currentStreak_def streakLoop.simps completedOnDay_def exampleTasks_def
      mkTask_def exampleNow_def msPerDay_def startOfDay_def endOfDay_def)

lemma ex_db: "tasksOf exampleDb 7 = exampleTasks"
  by (simp add: tasksOf_def exampleDb_def exampleTasks_def mkTask_def)

text \<open>The claim at \<open>exampleTasks\<close>, a task list of that shape, on a server five and a
  half hours ahead of UTC, and at the handler for user 7 over \<open>exampleDb\<close>.\<close>

theorem score_example_witness:
  "length exampleTasks = 10 \<and> length (completedTasks exampleTasks) = 6
   \<and> onTimeCompletions exampleTasks = 5 \<and> checklistStats exampleTasks = (20, 15)
   \<and> currentStreak 19800000 exampleNow exampleTasks = 3
   \<and> productivityScore 19800000 exampleNow exampleTasks = 73
   \<and> ps_productivityScore (userStats 19800000 exampleNow (Some 30) exampleTasks) = 73
   \<and> tasksOf exampleDb 7 = exampleTasks
   \<and> ps_productivityScore
        (getProductivityStats 19800000 exampleNow exampleDb 7 False None (Some 30)) = 73"
  using score_example[OF ex_len ex_done ex_onTime ex_checklist ex_streak, of exampleDb 7 False]
    ex_len ex_done ex_onTime ex_checklist ex_streak ex_db
  by simp

section \<open>Properties of the team aggregation\<close>

lemma foldl_add_sum_list: "foldl (\<lambda>sum s. sum + f s) a xs = a + sum_list (map f xs)"
  for a :: "'a::monoid_add"
  by (induction xs arbitrary: a) (simp_all add: add.assoc)

lemma sum_list_sortByScore: "sum_list (map f (sortByScore ms)) = sum_list (map f ms)"
  for f :: "memberStats \<Rightarrow> 'a::comm_monoid_add"
proof -
  have "mset (map f (sortByScore ms)) = mset (map f ms)"
    by (simp add: sortByScore_def)
  then show ?thesis by (metis sum_mset_sum_list)
qed

lemma sortByScore_desc:
  "sorted_wrt (\<lambda>a b. m_productivityScore b \<le> m_productivityScore a) (sortByScore ms)"
proof -
  have "sorted (map (\<lambda>s. - m_productivityScore s) (sortByScore ms))"
    unfolding sortByScore_def by (rule sorted_sort_key)
  then show ?thesis by (simp add: sorted_map)
qed

lemma teamAverageOf_sorted:
  "teamAverageOf (sortByScore ms) =
     \<lparr>avgProductivityScore =
        (if ms = [] then 0
         else jsRound (of_int (sum_list (map m_productivityScore ms)) / of_nat (length ms))),
      totalCompleted = sum_list (map m_completedInPeriod ms),
      avgOnTimeRate =
        (if ms = [] then 0
         else jsRound (of_int (sum_list (map m_onTimeRate ms)) / of_nat (length ms))),
      totalOverdue = sum_list (map m_overdueTasks ms)\<rparr>"
proof -
  have len: "length (sortByScore ms) = length ms" by (simp add: sortByScore_def)
  show ?thesis
    by (simp add: teamAverageOf_def foldl_add_sum_list sum_list_sortByScore len)
qed

lemma sort3: "map m_productivityScore ms = [90, 50, 70] \<Longrightarrow>
   map m_productivityScore (sortByScore ms) = [90, 70, 50]"
proof -
  assume h: "map m_productivityScore ms = [90, 50, 70]"
  then obtain a b c where ms: "ms = [a, b, c]" by auto
  with h show ?thesis by (simp add: sortByScore_def)
qed

lemma memberOf_user: "m_user (memberOf tz now start db u) = u"
  by (simp add: memberOf_def Let_def)

text \<open>
  Claim C9: the team aggregation returns the member snapshots in descending order of
  productivity score (a permutation of the input), the two averages are the means over
  the members rounded to the nearest integer, the two totals are the sums of the
  per-member period completions and overdue counts; members with scores 90, 50, 70 come
  back as 90, 70, 50 with average score 70; and a team without members gets zero-valued
  averages, not an error. The report of \<open>getTeamProductivityStats\<close> is that aggregation
  of the snapshots of the organisation's users: one member per user, sorted, with the
  averages and totals over its members.
\<close>

theorem team_aggregate:
  "sorted_wrt (\<lambda>a b. m_productivityScore b \<le> m_productivityScore a) (r_members (aggregate d ms))
   \<and> mset (r_members (aggregate d ms)) = mset ms
   \<and> r_teamAverage (aggregate d ms) =
       \<lparr>avgProductivityScore =
          (if ms = [] then 0
           else jsRound (of_int (sum_list (map m_productivityScore ms)) / of_nat (length ms))),
        totalCompleted = sum_list (map m_completedInPeriod ms),
        avgOnTimeRate =
          (if ms = [] then 0
           else jsRound (of_int (sum_list (map m_onTimeRate ms)) / of_nat (length ms))),
        totalOverdue = sum_list (map m_overdueTasks ms)\<rparr>
   \<and> (map m_productivityScore ms = [90, 50, 70] \<longrightarrow>
        map m_productivityScore (r_members (aggregate d ms)) = [90, 70, 50]
        \<and> avgProductivityScore (r_teamAverage (aggregate d ms)) = 70)
   \<and> getTeamProductivityStats tz now db True False [] period =
       Inr \<lparr>r_period = daysToAnalyze period, r_teamSize = 0,
            r_teamAverage = \<lparr>avgProductivityScore = 0, totalCompleted = 0,
                             avgOnTimeRate = 0, totalOverdue = 0\<rparr>,
            r_members = []\<rparr>
   \<and> (getTeamProductivityStats tz now db True False us period = Inr rep \<longrightarrow>
        sorted_wrt (\<lambda>a b. m_productivityScore b \<le> m_productivityScore a) (r_members rep)
        \<and> mset (map m_user (r_members rep)) = mset us
        \<and> mset (r_members rep)
            = mset (map (memberOf tz now (startDate tz now (daysToAnalyze period)) db) us)
        \<and> r_teamSize rep = length us
        \<and> r_teamAverage rep =
            \<lparr>avgProductivityScore =
               (if us = [] then 0
                else jsRound (of_int (sum_list (map m_productivityScore (r_members rep)))
                                / of_nat (length us))),
             totalCompleted = sum_list (map m_completedInPeriod (r_members rep)),
             avgOnTimeRate =
               (if us = [] then 0
                else jsRound (of_int (sum_list (map m_onTimeRate (r_members rep)))
                                / of_nat (length us))),
             totalOverdue = sum_list (map m_overdueTasks (r_members rep))\<rparr>)"
proof -
  have p1: "sorted_wrt (\<lambda>a b. m_productivityScore b \<le> m_productivityScore a) (r_members (aggregate d ms))" for d ms
    by (simp add: aggregate_def Let_def sortByScore_desc)
  have p2: "mset (r_members (aggregate d ms)) = mset ms" for d ms
    by (simp add: aggregate_def Let_def sortByScore_def)
  have p3: "r_teamAverage (aggregate d ms) =
       \<lparr>avgProductivityScore =
          (if ms = [] then 0
           else jsRound (of_int (sum_list (map m_productivityScore ms)) / of_nat (length ms))),
        totalCompleted = sum_list (map m_completedInPeriod ms),
        avgOnTimeRate =
          (if ms = [] then 0
           else jsRound (of_int (sum_list (map m_onTimeRate ms)) / of_nat (length ms))),
        totalOverdue = sum_list (map m_overdueTasks ms)\<rparr>" for d ms
    by (simp add: aggregate_def Let_def teamAverageOf_sorted)
  have p4: "map m_productivityScore ms = [90, 50, 70] \<longrightarrow>
        map m_productivityScore (r_members (aggregate d ms)) = [90, 70, 50]
        \<and> avgProductivityScore (r_teamAverage (aggregate d ms)) = 70"
  proof
    assume h: "map m_productivityScore ms = [90, 50, 70]"
    have a: "map m_productivityScore (r_members (aggregate d ms)) = [90, 70, 50]"
      using sort3[OF h] by (simp add: aggregate_def Let_def)
    have "ms \<noteq> []" "length ms = 3" using h by (auto dest: arg_cong[where f = length])
    then have "avgProductivityScore (r_teamAverage (aggregate d ms)) = 70"
      using h by (simp add: p3 jsRound_def)
    then show "map m_productivityScore (r_members (aggregate d ms)) = [90, 70, 50]
        \<and> avgProductivityScore (r_teamAverage (aggregate d ms)) = 70" using a by simp
  qed
  have p5: "getTeamProductivityStats tz now db True False [] period =
       Inr \<lparr>r_period = daysToAnalyze period, r_teamSize = 0,
            r_teamAverage = \<lparr>avgProductivityScore = 0, totalCompleted = 0,
                             avgOnTimeRate = 0, totalOverdue = 0\<rparr>,
            r_members = []\<rparr>"
    by (simp add: getTeamProductivityStats_def aggregate_def Let_def sortByScore_def
        teamAverageOf_def)
  have p6: "getTeamProductivityStats tz now db True False us period = Inr rep \<longrightarrow>
        sorted_wrt (\<lambda>a b. m_productivityScore b \<le> m_productivityScore a) (r_members rep)
        \<and> mset (map m_user (r_members rep)) = mset us
        \<and> mset (r_members rep)
            = mset (map (memberOf tz now (startDate tz now (daysToAnalyze period)) db) us)
        \<and> r_teamSize rep = length us
        \<and> r_teamAverage rep =
            \<lparr>avgProductivityScore =
               (if us = [] then 0
                else jsRound (of_int (sum_list (map m_productivityScore (r_members rep)))
                                / of_nat (length us))),
             totalCompleted = sum_list (map m_completedInPeriod (r_members rep)),
             avgOnTimeRate =
               (if us = [] then 0
                else jsRound (of_int (sum_list (map m_onTimeRate (r_members rep)))
                                / of_nat (length us))),
             totalOverdue = sum_list (map m_overdueTasks (r_members rep))\<rparr>"
  proof
    assume h: "getTeamProductivityStats tz now db True False us period = Inr rep"
    define ms where "ms = map (memberOf tz now (startDate tz now (daysToAnalyze period)) db) us"
    have rep: "rep = aggregate (daysToAnalyze period) ms"
      using h by (simp add: getTeamProductivityStats_def ms_def)
    have mem: "r_members rep = sortByScore ms" by (simp add: rep aggregate_def Let_def)
    have users: "map m_user ms = us"
      by (simp add: ms_def comp_def memberOf_user)
    have "mset (map m_user (r_members rep)) = mset (map m_user ms)"
      using p2[of "daysToAnalyze period" ms] by (simp add: rep)
    then have u: "mset (map m_user (r_members rep)) = mset us" using users by simp
    have len: "length ms = length us" "ms = [] \<longleftrightarrow> us = []" by (simp_all add: ms_def)
    have size: "r_teamSize rep = length us"
      by (simp add: rep aggregate_def Let_def sortByScore_def len)
    have sums: "sum_list (map f (r_members rep)) = sum_list (map f ms)"
      for f :: "memberStats \<Rightarrow> 'a::comm_monoid_add"
      unfolding mem by (rule sum_list_sortByScore)
    show "sorted_wrt (\<lambda>a b. m_productivityScore b \<le> m_productivityScore a) (r_members rep)
        \<and> mset (map m_user (r_members rep)) = mset us
        \<and> mset (r_members rep)
            = mset (map (memberOf tz now (startDate tz now (daysToAnalyze period)) db) us)
        \<and> r_teamSize rep = length us
        \<and> r_teamAverage rep =
            \<lparr>avgProductivityScore =
               (if us = [] then 0
                else jsRound (of_int (sum_list (map m_productivityScore (r_members rep)))
                                / of_nat (length us))),
             totalCompleted = sum_list (map m_completedInPeriod (r_members rep)),
             avgOnTimeRate =
               (if us = [] then 0
                else jsRound (of_int (sum_list (map m_onTimeRate (r_members rep)))
                                / of_nat (length us))),
             totalOverdue = sum_list (map m_overdueTasks (r_members rep))\<rparr>"
      using p1[of "daysToAnalyze period" ms] p2[of "daysToAnalyze period" ms]
        p3[of "daysToAnalyze period" ms] u size
      by (simp add: rep[symmetric] sums len ms_def[symmetric])
  qed
  show ?thesis
    by (rule conjI[OF p1 conjI[OF p2 conjI[OF p3 conjI[OF p4 conjI[OF p5 p6]]]]])
qed

lemma exampleTeam_scores: "map m_productivityScore exampleTeam = [90, 50, 70]"
  by (simp add: exampleTeam_def memberWith_def)

text \<open>The claim at a team of three members with scores 90, 50 and 70.\<close>

theorem team_aggregate_witness:
  "map m_productivityScore exampleTeam = [90, 50, 70]
   \<and> map m_productivityScore (r_members (aggregate 30 exampleTeam)) = [90, 70, 50]
   \<and> avgProductivityScore (r_teamAverage (aggregate 30 exampleTeam)) = 70"
  using team_aggregate[of 30 exampleTeam, THEN conjunct2, THEN conjunct2, THEN conjunct2,
      THEN conjunct1] exampleTeam_scores
  by simp

section \<open>Properties of the reminder scan\<close>

lemma remindUser_other:
  "remindUser e t u w = (w', r) \<Longrightarrow> i \<noteq> task_id t \<Longrightarrow>
   notificationsFor i w' = notificationsFor i w \<and> mailsFor i w' = mailsFor i w
   \<and> w_tasks w' = w_tasks w \<and> w_users w' = w_users w"
  by (auto simp: remindUser_def sendDueDateReminder_def notificationsFor_def mailsFor_def
      Let_def split: option.splits if_splits)

lemma remindUser_tasks:
  "remindUser e t u w = (w', r) \<Longrightarrow> w_tasks w' = w_tasks w \<and> w_users w' = w_users w"
  by (auto simp: remindUser_def sendDueDateReminder_def Let_def split: option.splits if_splits)

lemma remindAll_other:
  "remindAll e t us w = (w', rs) \<Longrightarrow> i \<noteq> task_id t \<Longrightarrow>
   notificationsFor i w' = notificationsFor i w \<and> mailsFor i w' = mailsFor i w"
proof (induction us arbitrary: w w' rs)
  case Nil
  then show ?case by simp
next
  case (Cons u us)
  obtain w1 r where 1: "remindUser e t u w = (w1, r)" by (cases "remindUser e t u w")
  obtain w2 rs2 where 2: "remindAll e t us w1 = (w2, rs2)" by (cases "remindAll e t us w1")
  from Cons.prems 1 2 have "w' = w2" by simp
  then show ?case using Cons.IH[OF 2 Cons.prems(2)] remindUser_other[OF 1 Cons.prems(2)] by simp
qed

lemma remindAll_tasks:
  "remindAll e t us w = (w', rs) \<Longrightarrow> w_tasks w' = w_tasks w \<and> w_users w' = w_users w"
proof (induction us arbitrary: w w' rs)
  case Nil
  then show ?case by simp
next
  case (Cons u us)
  obtain w1 r where 1: "remindUser e t u w = (w1, r)" by (cases "remindUser e t u w")
  obtain w2 rs2 where 2: "remindAll e t us w1 = (w2, rs2)" by (cases "remindAll e t us w1")
  from Cons.prems 1 2 have "w' = w2" by simp
  then show ?case using Cons.IH[OF 2] remindUser_tasks[OF 1] by simp
qed

lemma findByIdAndUpdate_ids: "map task_id (findByIdAndUpdate i a ts) = map task_id ts"
  by (induction ts) (simp_all add: findByIdAndUpdate_def)

lemma findByIdAndUpdate_keeps:
  "x \<in> set ts \<Longrightarrow> task_id x \<noteq> i \<Longrightarrow> x \<in> set (findByIdAndUpdate i a ts)"
  by (force simp: findByIdAndUpdate_def)

lemma processTasks_other:
  "processTasks e found w = (w', thrown) \<Longrightarrow> i \<notin> task_id ` fst ` set found \<Longrightarrow>
   notificationsFor i w' = notificationsFor i w \<and> mailsFor i w' = mailsFor i w
   \<and> map task_id (w_tasks w') = map task_id (w_tasks w)
   \<and> (\<forall>x \<in> set (w_tasks w). task_id x = i \<longrightarrow> x \<in> set (w_tasks w'))"
proof (induction found arbitrary: w w' thrown)
  case Nil
  then show ?case by simp
next
  case (Cons p rest)
  obtain t assignees where p: "p = (t, assignees)" by (cases p)
  obtain w1 results where 1: "remindAll e t assignees w = (w1, results)"
    by (cases "remindAll e t assignees w")
  have ne: "i \<noteq> task_id t" and rest: "i \<notin> task_id ` fst ` set rest"
    using Cons.prems(2) p by auto
  note a = remindAll_other[OF 1 ne] remindAll_tasks[OF 1]
  let ?w2 = "w1\<lparr>w_tasks := findByIdAndUpdate (task_id t) (updateTime e (task_id t)) (w_tasks w1)\<rparr>"
  have w2: "notificationsFor i ?w2 = notificationsFor i w" "mailsFor i ?w2 = mailsFor i w"
    "map task_id (w_tasks ?w2) = map task_id (w_tasks w)"
    "\<forall>x \<in> set (w_tasks w). task_id x = i \<longrightarrow> x \<in> set (w_tasks ?w2)"
    using a ne by (auto simp: notificationsFor_def mailsFor_def findByIdAndUpdate_ids
        intro: findByIdAndUpdate_keeps)
  consider (upd) "successCount results > 0" "updateOk e (task_id t)"
    | (thr) "successCount results > 0" "\<not> updateOk e (task_id t)"
    | (none) "\<not> successCount results > 0" by blast
  then show ?case
  proof cases
    case upd
    then have step: "processTasks e rest ?w2 = (w', thrown)" using Cons.prems(1) p 1 by simp
    from Cons.IH[OF step rest] w2 show ?thesis by (metis (no_types, lifting))
  next
    case thr
    then have "w' = w1" using Cons.prems(1) p 1 by simp
    then show ?thesis using a by simp
  next
    case none
    then have step: "processTasks e rest w1 = (w', thrown)" using Cons.prems(1) p 1 by simp
    from Cons.IH[OF step rest] a show ?thesis by (metis (no_types, lifting))
  qed
qed

lemma processTasks_ids:
  "processTasks e found w = (w', thrown) \<Longrightarrow> map task_id (w_tasks w') = map task_id (w_tasks w)"
proof (induction found arbitrary: w w' thrown)
  case Nil
  then show ?case by simp
next
  case (Cons p rest)
  obtain t assignees where p: "p = (t, assignees)" by (cases p)
  obtain w1 results where 1: "remindAll e t assignees w = (w1, results)"
    by (cases "remindAll e t assignees w")
  note a = remindAll_tasks[OF 1]
  let ?w2 = "w1\<lparr>w_tasks := findByIdAndUpdate (task_id t) (updateTime e (task_id t)) (w_tasks w1)\<rparr>"
  consider (upd) "successCount results > 0" "updateOk e (task_id t)"
    | (thr) "successCount results > 0" "\<not> updateOk e (task_id t)"
    | (none) "\<not> successCount results > 0" by blast
  then show ?case
  proof cases
    case upd
    then have step: "processTasks e rest ?w2 = (w', thrown)" using Cons.prems(1) p 1 by simp
    from Cons.IH[OF step] a show ?thesis by (simp add: findByIdAndUpdate_ids)
  next
    case thr
    then have "w' = w1" using Cons.prems(1) p 1 by simp
    then show ?thesis using a by simp
  next
    case none
    then have step: "processTasks e rest w1 = (w', thrown)" using Cons.prems(1) p 1 by simp
    from Cons.IH[OF step] a show ?thesis by simp
  qed
qed

lemma scan_ids:
  "checkDueDateReminders e now w = (w', r) \<Longrightarrow> map task_id (w_tasks w') = map task_id (w_tasks w)"
  by (auto simp: checkDueDateReminders_def Let_def split: if_splits prod.splits
      dest: processTasks_ids)

lemma reminded_not_found:
  assumes d: "distinct (map task_id (w_tasks w))" and t: "t \<in> set (w_tasks w)"
    and f: "reminderSent t = Some True"
  shows "task_id t \<notin> task_id ` fst ` set (tasksNeedingReminders now w)"
proof
  assume "task_id t \<in> task_id ` fst ` set (tasksNeedingReminders now w)"
  then obtain x where x: "x \<in> set (w_tasks w)" "needsReminder now x" "task_id x = task_id t"
    by (auto simp: tasksNeedingReminders_def)
  have "inj_on task_id (set (w_tasks w))" using d by (simp add: distinct_map)
  then have "x = t" using x t by (auto dest: inj_onD)
  then show False using x(2) f by (simp add: needsReminder_def Let_def)
qed

lemma scan_skips_reminded:
  assumes d: "distinct (map task_id (w_tasks w))" and t: "t \<in> set (w_tasks w)"
    and f: "reminderSent t = Some True"
    and s: "checkDueDateReminders e now w = (w', r)"
  shows "notificationsFor (task_id t) w' = notificationsFor (task_id t) w
         \<and> mailsFor (task_id t) w' = mailsFor (task_id t) w \<and> t \<in> set (w_tasks w')"
proof (cases "findOk e")
  case False
  then show ?thesis using s t by (simp add: checkDueDateReminders_def)
next
  case True
  obtain w1 thrown where p: "processTasks e (tasksNeedingReminders now w) w = (w1, thrown)"
    by (cases "processTasks e (tasksNeedingReminders now w) w")
  then have "w' = w1" using s True by (simp add: checkDueDateReminders_def Let_def)
  then show ?thesis
    using processTasks_other[OF p reminded_not_found[OF d t f]] t by simp
qed

text \<open>
  Claim C1: a task whose persisted \<open>reminderSent\<close> flag is true is not selected by a
  reminder scan, which creates no notification and attempts no mail for it; hence of two
  scans in succession the second one produces nothing for a task that the first one
  marked (or that was marked before), whatever the collaborators do. Task ids are unique
  in the collection.
\<close>

theorem reminder_idempotent:
  assumes "distinct (map task_id (w_tasks w))"
    and "checkDueDateReminders e1 now1 w = (w1, r1)"
    and "checkDueDateReminders e2 now2 w1 = (w2, r2)"
  shows "(\<forall>t \<in> set (w_tasks w). reminderSent t = Some True \<longrightarrow>
            t \<notin> fst ` set (tasksNeedingReminders now1 w)
            \<and> notificationsFor (task_id t) w1 = notificationsFor (task_id t) w
            \<and> mailsFor (task_id t) w1 = mailsFor (task_id t) w)
         \<and> (\<forall>t \<in> set (w_tasks w1). reminderSent t = Some True \<longrightarrow>
            t \<notin> fst ` set (tasksNeedingReminders now2 w1)
            \<and> notificationsFor (task_id t) w2 = notificationsFor (task_id t) w1
            \<and> mailsFor (task_id t) w2 = mailsFor (task_id t) w1)"
proof -
  have d1: "distinct (map task_id (w_tasks w1))" using scan_ids[OF assms(2)] assms(1) by simp
  show ?thesis
    using scan_skips_reminded[OF assms(1) _ _ assms(2)] scan_skips_reminded[OF d1 _ _ assms(3)]
      reminded_not_found[OF assms(1)] reminded_not_found[OF d1]
    by blast
qed

lemma remWorld_scan1:
  "checkDueDateReminders (okEnv 2000) 1000 remWorld =
     (remWorld\<lparr>w_tasks := [(dueTask 1 (1000 + 10 * 60 * 60 * 1000) [7] (Some False))
                              \<lparr>reminderSent := Some True, reminderSentAt := Some 2000\<rparr>,
                            dueTask 2 (1000 + 5 * 60 * 60 * 1000) [7] (Some True)],
                w_notifications := [\<lparr>n_recipient = 7, n_type = ''reminder'',
                   n_title = ''Task Due Soon'',
                   n_message = [CHR 0x22] @ ''report'' @ [CHR 0x22] @ '' is due in less than 24 hours!'',
                   n_task = 1\<rparr>],
                w_outbox := [\<lparr>mail_to = ''a@x.io'', mail_name = ''member'', mail_taskTitle = ''report'',
                   mail_dueDate = Some (1000 + 10 * 60 * 60 * 1000), mail_priority = High, mail_task = 1,
                   mail_delivered = True\<rparr>]\<rparr>, Processed 1)"
  by (simp add: checkDueDateReminders_def tasksNeedingReminders_def needsReminder_def
      remWorld_def okEnv_def dueTask_def member_def populate_def List.map_filter_def
      remindUser_def sendDueDateReminder_def successCount_def findByIdAndUpdate_def Let_def)

lemma afterFirstScan_tasks:
  "w_tasks afterFirstScan =
     [(dueTask 1 (1000 + 10 * 60 * 60 * 1000) [7] (Some False))
        \<lparr>reminderSent := Some True, reminderSentAt := Some 2000\<rparr>,
      dueTask 2 (1000 + 5 * 60 * 60 * 1000) [7] (Some True)]"
  by (simp add: afterFirstScan_def remWorld_scan1)

lemma afterFirstScan_sent:
  "length (notificationsFor 1 afterFirstScan) = 1 \<and> length (mailsFor 1 afterFirstScan) = 1"
  by (simp add: afterFirstScan_def remWorld_scan1 notificationsFor_def mailsFor_def)

text \<open>The claim at \<open>remWorld\<close>: the first scan reminds for task 1 once and marks it,
  leaves the marked task 2 alone, and the second scan adds nothing for task 1.\<close>

theorem reminder_idempotent_witness:
  "distinct (map task_id (w_tasks remWorld))
   \<and> map reminderSent (w_tasks remWorld) = [Some False, Some True]
   \<and> map reminderSent (w_tasks afterFirstScan) = [Some True, Some True]
   \<and> length (notificationsFor 1 afterFirstScan) = 1
   \<and> length (mailsFor 1 afterFirstScan) = 1
   \<and> notificationsFor 2 afterFirstScan = notificationsFor 2 remWorld
   \<and> mailsFor 2 afterFirstScan = mailsFor 2 remWorld
   \<and> notificationsFor 1 afterSecondScan = notificationsFor 1 afterFirstScan
   \<and> mailsFor 1 afterSecondScan = mailsFor 1 afterFirstScan"
proof -
  let ?t1 = "(dueTask 1 (1000 + 10 * 60 * 60 * 1000) [7] (Some False))
               \<lparr>reminderSent := Some True, reminderSentAt := Some 2000\<rparr>"
  let ?t2 = "dueTask 2 (1000 + 5 * 60 * 60 * 1000) [7] (Some True)"
  have d: "distinct (map task_id (w_tasks remWorld))"
    by (simp add: remWorld_def dueTask_def)
  have s1: "checkDueDateReminders (okEnv 2000) 1000 remWorld =
              (afterFirstScan, snd (checkDueDateReminders (okEnv 2000) 1000 remWorld))"
    by (simp add: afterFirstScan_def)
  have s2: "checkDueDateReminders (okEnv 3000) 1000 afterFirstScan =
              (afterSecondScan, snd (checkDueDateReminders (okEnv 3000) 1000 afterFirstScan))"
    by (simp add: afterSecondScan_def)
  note main = reminder_idempotent[OF d s1 s2]
  have m2: "?t2 \<in> set (w_tasks remWorld)" "reminderSent ?t2 = Some True" "task_id ?t2 = 2"
    by (simp_all add: remWorld_def dueTask_def)
  have m1: "?t1 \<in> set (w_tasks afterFirstScan)" "reminderSent ?t1 = Some True" "task_id ?t1 = 1"
    by (simp_all add: afterFirstScan_tasks dueTask_def)
  have a: "notificationsFor 2 afterFirstScan = notificationsFor 2 remWorld
           \<and> mailsFor 2 afterFirstScan = mailsFor 2 remWorld"
    using main[THEN conjunct1, rule_format, OF m2(1) m2(2)] m2(3) by simp
  have b: "notificationsFor 1 afterSecondScan = notificationsFor 1 afterFirstScan
           \<and> mailsFor 1 afterSecondScan = mailsFor 1 afterFirstScan"
    using main[THEN conjunct2, rule_format, OF m1(1) m1(2)] m1(3) by simp
  have c: "map reminderSent (w_tasks remWorld) = [Some False, Some True]"
    by (simp add: remWorld_def dueTask_def)
  have e: "map reminderSent (w_tasks afterFirstScan) = [Some True, Some True]"
    by (simp add: afterFirstScan_tasks dueTask_def)
  show ?thesis using a b c d e afterFirstScan_sent by simp
qed

lemma remindUser_outcome:
  "snd (remindUser e t u w) = Success \<longleftrightarrow> hasEmail u \<and> createOk e (task_id t) (user_id u)"
  by (auto simp: remindUser_def hasEmail_def sendDueDateReminder_def Let_def
      split: option.splits)

lemma remindAll_success:
  "successCount (snd (remindAll e t us w)) > 0 \<longleftrightarrow>
     (\<exists>u \<in> set us. hasEmail u \<and> createOk e (task_id t) (user_id u))"
proof (induction us arbitrary: w)
  case Nil
  then show ?case by (simp add: successCount_def)
next
  case (Cons u us)
  obtain w1 r where 1: "remindUser e t u w = (w1, r)" by (cases "remindUser e t u w")
  obtain w2 rs where 2: "remindAll e t us w1 = (w2, rs)" by (cases "remindAll e t us w1")
  have r: "r = Success \<longleftrightarrow> hasEmail u \<and> createOk e (task_id t) (user_id u)"
    using remindUser_outcome[of e t u w] 1 by simp
  have rs: "successCount rs > 0 \<longleftrightarrow> (\<exists>u \<in> set us. hasEmail u \<and> createOk e (task_id t) (user_id u))"
    using Cons.IH[of w1] 2 by simp
  have "successCount (r # rs) > 0 \<longleftrightarrow> r = Success \<or> successCount rs > 0"
    by (simp add: successCount_def)
  then show ?case using 1 2 r rs by auto
qed

lemma commit_decided_by_notification:
  assumes "updateOk e (task_id t)"
  shows "w_tasks (fst (processTasks e [(t, us)] w)) =
           (if \<exists>u \<in> set us. hasEmail u \<and> createOk e (task_id t) (user_id u)
            then findByIdAndUpdate (task_id t) (updateTime e (task_id t)) (w_tasks w)
            else w_tasks w)"
proof -
  obtain w1 rs where 1: "remindAll e t us w = (w1, rs)" by (cases "remindAll e t us w")
  have c: "successCount rs > 0 \<longleftrightarrow>
             (\<exists>u \<in> set us. hasEmail u \<and> createOk e (task_id t) (user_id u))"
    using remindAll_success[of e t us w] 1 by simp
  have "w_tasks w1 = w_tasks w" using remindAll_tasks[OF 1] by simp
  then show ?thesis using 1 c assms by auto
qed

text \<open>
  Claim C2: the transition to ReminderSent commits if and only if at least one assignee's
  email attempt succeeds; if every attempt fails the flag stays unset.

  In the code a rejected \<open>sendMail\<close> is caught inside \<open>sendDueDateReminder\<close> and the scan
  does not look at the returned value, so what it counts as a success is a stored
  notification (\<open>commit_decided_by_notification\<close>). With every mail rejected, the scan
  of \<open>remWorld\<close> still marks task 1 at the time of its write; the one mail in the outbox
  was not delivered.
\<close>

theorem flag_set_without_mail:
  "map reminderSent (w_tasks (fst (checkDueDateReminders (mailDownEnv 2000) 1000 remWorld)))
     = [Some True, Some True]
   \<and> map reminderSentAt (w_tasks (fst (checkDueDateReminders (mailDownEnv 2000) 1000 remWorld)))
     = [Some 2000, Some 500]
   \<and> map mail_delivered (w_outbox (fst (checkDueDateReminders (mailDownEnv 2000) 1000 remWorld)))
     = [False]"
  by (simp add: checkDueDateReminders_def tasksNeedingReminders_def needsReminder_def
      remWorld_def mailDownEnv_def dueTask_def member_def populate_def List.map_filter_def
      remindUser_def sendDueDateReminder_def successCount_def findByIdAndUpdate_def Let_def)

lemma remindUser_keeps:
  "remindUser e t u w = (w', r) \<Longrightarrow>
   (notified i uid w \<longrightarrow> notified i uid w') \<and> (mailed i a w \<longrightarrow> mailed i a w')"
  by (auto simp: remindUser_def sendDueDateReminder_def Let_def notified_def mailed_def
      list_ex_iff split: option.splits if_splits)

lemma remindUser_adds:
  "remindUser e t u w = (w', r) \<Longrightarrow> u_email u = Some a \<Longrightarrow> a \<noteq> [] \<Longrightarrow>
   createOk e (task_id t) (user_id u) \<Longrightarrow>
   notified (task_id t) (user_id u) w' \<and> mailed (task_id t) a w'"
  by (auto simp: remindUser_def sendDueDateReminder_def Let_def notified_def mailed_def
      list_ex_iff split: option.splits if_splits)

lemma remindAll_keeps:
  "remindAll e t us w = (w', rs) \<Longrightarrow>
   (notified i uid w \<longrightarrow> notified i uid w') \<and> (mailed i a w \<longrightarrow> mailed i a w')"
proof (induction us arbitrary: w w' rs)
  case Nil
  then show ?case by simp
next
  case (Cons u us)
  obtain w1 r where 1: "remindUser e t u w = (w1, r)" by (cases "remindUser e t u w")
  obtain w2 rs2 where 2: "remindAll e t us w1 = (w2, rs2)" by (cases "remindAll e t us w1")
  from Cons.prems 1 2 have "w' = w2" by simp
  then show ?case using Cons.IH[OF 2] remindUser_keeps[OF 1, of i uid a] by simp
qed

lemma remindAll_adds:
  "remindAll e t us w = (w', rs) \<Longrightarrow> u \<in> set us \<Longrightarrow> u_email u = Some a \<Longrightarrow> a \<noteq> [] \<Longrightarrow>
   createOk e (task_id t) (user_id u) \<Longrightarrow>
   notified (task_id t) (user_id u) w' \<and> mailed (task_id t) a w'"
proof (induction us arbitrary: w w' rs)
  case Nil
  then show ?case by simp
next
  case (Cons v us)
  obtain w1 r where 1: "remindUser e t v w = (w1, r)" by (cases "remindUser e t v w")
  obtain w2 rs2 where 2: "remindAll e t us w1 = (w2, rs2)" by (cases "remindAll e t us w1")
  from Cons.prems(1) 1 2 have w': "w' = w2" by simp
  show ?case
  proof (cases "u = v")
    case True
    then have "notified (task_id t) (user_id u) w1 \<and> mailed (task_id t) a w1"
      using remindUser_adds[OF 1] Cons.prems by simp
    then show ?thesis
      using remindAll_keeps[OF 2, of "task_id t" "user_id u" a] w' by simp
  next
    case False
    then have "u \<in> set us" using Cons.prems(2) by simp
    then show ?thesis using Cons.IH[OF 2] Cons.prems w' by simp
  qed
qed

lemma processTasks_keeps:
  "processTasks e found w = (w', thrown) \<Longrightarrow>
   (notified i uid w \<longrightarrow> notified i uid w') \<and> (mailed i a w \<longrightarrow> mailed i a w')"
proof (induction found arbitrary: w w' thrown)
  case Nil
  then show ?case by simp
next
  case (Cons p rest)
  obtain t assignees where p: "p = (t, assignees)" by (cases p)
  obtain w1 results where 1: "remindAll e t assignees w = (w1, results)"
    by (cases "remindAll e t assignees w")
  note k = remindAll_keeps[OF 1, of i uid a]
  let ?w2 = "w1\<lparr>w_tasks := findByIdAndUpdate (task_id t) (updateTime e (task_id t)) (w_tasks w1)\<rparr>"
  have k2: "(notified i uid w \<longrightarrow> notified i uid ?w2) \<and> (mailed i a w \<longrightarrow> mailed i a ?w2)"
    using k by (simp add: notified_def mailed_def)
  consider (upd) "successCount results > 0" "updateOk e (task_id t)"
    | (thr) "successCount results > 0" "\<not> updateOk e (task_id t)"
    | (none) "\<not> successCount results > 0" by blast
  then show ?case
  proof cases
    case upd
    then have step: "processTasks e rest ?w2 = (w', thrown)" using Cons.prems(1) p 1 by simp
    from Cons.IH[OF step] k2 show ?thesis by blast
  next
    case thr
    then have "w' = w1" using Cons.prems(1) p 1 by simp
    then show ?thesis using k by simp
  next
    case none
    then have step: "processTasks e rest w1 = (w', thrown)" using Cons.prems(1) p 1 by simp
    from Cons.IH[OF step] k show ?thesis by blast
  qed
qed

lemma processTasks_adds:
  "processTasks e found w = (w', False) \<Longrightarrow> (t, us) \<in> set found \<Longrightarrow> u \<in> set us \<Longrightarrow>
   u_email u = Some a \<Longrightarrow> a \<noteq> [] \<Longrightarrow> createOk e (task_id t) (user_id u) \<Longrightarrow>
   notified (task_id t) (user_id u) w' \<and> mailed (task_id t) a w'"
proof (induction found arbitrary: w w')
  case Nil
  then show ?case by simp
next
  case (Cons p rest)
  obtain t0 assignees where p: "p = (t0, assignees)" by (cases p)
  obtain w1 results where 1: "remindAll e t0 assignees w = (w1, results)"
    by (cases "remindAll e t0 assignees w")
  let ?w2 = "w1\<lparr>w_tasks := findByIdAndUpdate (task_id t0) (updateTime e (task_id t0)) (w_tasks w1)\<rparr>"
  obtain wn where step: "processTasks e rest wn = (w', False)"
    and wn: "wn = ?w2 \<or> wn = w1"
    using Cons.prems(1) p 1 by (auto simp: Let_def split: if_splits)
  have same: "notified i uid wn = notified i uid w1" "mailed i b wn = mailed i b w1" for i uid b
    using wn by (auto simp: notified_def mailed_def)
  show ?case
  proof (cases "(t, us) = p")
    case True
    then have "notified (task_id t) (user_id u) w1 \<and> mailed (task_id t) a w1"
      using remindAll_adds[OF 1, of u a] Cons.prems p by simp
    then have "notified (task_id t) (user_id u) wn \<and> mailed (task_id t) a wn"
      using same by simp
    then show ?thesis
      using processTasks_keeps[OF step, of "task_id t" "user_id u" a] by simp
  next
    case False
    then have "(t, us) \<in> set rest" using Cons.prems(2) by simp
    then show ?thesis using Cons.IH[OF step] Cons.prems by simp
  qed
qed

lemma unselected_not_found:
  assumes d: "distinct (map task_id (w_tasks w))" and t: "t \<in> set (w_tasks w)"
    and f: "t \<notin> fst ` set (tasksNeedingReminders now w)"
  shows "task_id t \<notin> task_id ` fst ` set (tasksNeedingReminders now w)"
proof
  assume "task_id t \<in> task_id ` fst ` set (tasksNeedingReminders now w)"
  then obtain x where x: "x \<in> fst ` set (tasksNeedingReminders now w)" "task_id x = task_id t"
    by (metis imageE)
  then have xs: "x \<in> set (w_tasks w)" by (auto simp: tasksNeedingReminders_def)
  have "inj_on task_id (set (w_tasks w))" using d by (simp add: distinct_map)
  then have "x = t" using x(2) xs t by (auto dest: inj_onD)
  then show False using x(1) f by simp
qed

text \<open>
  Claim C3: a reminder scan selects exactly the tasks that are not Completed, have
  \<open>reminderSent\<close> unset or false, and have a due date after \<open>now\<close> and at most 24 hours
  after it: a task due in exactly 24 hours is selected, a task due in 24 hours and one
  minute is not, and a task due at or before \<open>now\<close> is not. The scan works on that
  selection: the count it reports is the number of selected tasks; for a task that is not
  selected it creates no notification and attempts no mail; and when it runs to its end,
  every assignee with an address of a selected task whose notification can be stored
  has a notification and a mail attempt.
\<close>

theorem reminder_window:
  "(t \<in> fst ` set (tasksNeedingReminders now w) \<longleftrightarrow>
      t \<in> set (w_tasks w) \<and> status t \<noteq> Completed
      \<and> (reminderSent t = None \<or> reminderSent t = Some False)
      \<and> (\<exists>d. dueDate t = Some d \<and> now < d \<and> d \<le> now + 24 * 60 * 60 * 1000))
   \<and> (t \<in> set (w_tasks w) \<and> status t \<noteq> Completed \<and> reminderSent t \<noteq> Some True
        \<and> dueDate t = Some (now + 24 * 60 * 60 * 1000)
      \<longrightarrow> t \<in> fst ` set (tasksNeedingReminders now w))
   \<and> (dueDate t = Some (now + 24 * 60 * 60 * 1000 + 60 * 1000)
      \<longrightarrow> t \<notin> fst ` set (tasksNeedingReminders now w))
   \<and> ((\<exists>d. dueDate t = Some d \<and> d \<le> now) \<longrightarrow> t \<notin> fst ` set (tasksNeedingReminders now w))
   \<and> (checkDueDateReminders e now w = (w', Processed n)
      \<longrightarrow> n = length (tasksNeedingReminders now w))
   \<and> (distinct (map task_id (w_tasks w)) \<and> t \<in> set (w_tasks w)
        \<and> t \<notin> fst ` set (tasksNeedingReminders now w)
        \<and> checkDueDateReminders e now w = (w', r)
      \<longrightarrow> notificationsFor (task_id t) w' = notificationsFor (task_id t) w
          \<and> mailsFor (task_id t) w' = mailsFor (task_id t) w)
   \<and> (checkDueDateReminders e now w = (w', Processed n)
        \<and> t \<in> fst ` set (tasksNeedingReminders now w)
        \<and> u \<in> set (populate (w_users w) t) \<and> u_email u = Some a \<and> a \<noteq> []
        \<and> createOk e (task_id t) (user_id u)
      \<longrightarrow> notified (task_id t) (user_id u) w' \<and> mailed (task_id t) a w')"
proof -
  have sel: "t \<in> fst ` set (tasksNeedingReminders now w) \<longleftrightarrow>
               t \<in> set (w_tasks w) \<and> needsReminder now t"
    by (auto simp: tasksNeedingReminders_def image_iff)
  have flag: "reminderSent t \<noteq> Some True \<longleftrightarrow> reminderSent t = None \<or> reminderSent t = Some False"
    by (cases "reminderSent t") auto
  have window: "(t \<in> fst ` set (tasksNeedingReminders now w) \<longleftrightarrow>
      t \<in> set (w_tasks w) \<and> status t \<noteq> Completed
      \<and> (reminderSent t = None \<or> reminderSent t = Some False)
      \<and> (\<exists>d. dueDate t = Some d \<and> now < d \<and> d \<le> now + 24 * 60 * 60 * 1000))
   \<and> (t \<in> set (w_tasks w) \<and> status t \<noteq> Completed \<and> reminderSent t \<noteq> Some True
        \<and> dueDate t = Some (now + 24 * 60 * 60 * 1000)
      \<longrightarrow> t \<in> fst ` set (tasksNeedingReminders now w))
   \<and> (dueDate t = Some (now + 24 * 60 * 60 * 1000 + 60 * 1000)
      \<longrightarrow> t \<notin> fst ` set (tasksNeedingReminders now w))
   \<and> ((\<exists>d. dueDate t = Some d \<and> d \<le> now) \<longrightarrow> t \<notin> fst ` set (tasksNeedingReminders now w))"
    unfolding sel by (auto simp: needsReminder_def Let_def flag split: option.splits)
  have count: "checkDueDateReminders e now w = (w', Processed n)
      \<longrightarrow> n = length (tasksNeedingReminders now w)"
    by (auto simp: checkDueDateReminders_def Let_def split: if_splits prod.splits)
  have quiet: "distinct (map task_id (w_tasks w)) \<and> t \<in> set (w_tasks w)
        \<and> t \<notin> fst ` set (tasksNeedingReminders now w)
        \<and> checkDueDateReminders e now w = (w', r)
      \<longrightarrow> notificationsFor (task_id t) w' = notificationsFor (task_id t) w
          \<and> mailsFor (task_id t) w' = mailsFor (task_id t) w"
  proof
    assume h: "distinct (map task_id (w_tasks w)) \<and> t \<in> set (w_tasks w)
        \<and> t \<notin> fst ` set (tasksNeedingReminders now w)
        \<and> checkDueDateReminders e now w = (w', r)"
    then have nf: "task_id t \<notin> task_id ` fst ` set (tasksNeedingReminders now w)"
      using unselected_not_found by blast
    show "notificationsFor (task_id t) w' = notificationsFor (task_id t) w
          \<and> mailsFor (task_id t) w' = mailsFor (task_id t) w"
    proof (cases "findOk e")
      case False
      then show ?thesis using h by (simp add: checkDueDateReminders_def)
    next
      case True
      obtain w1 thrown where p: "processTasks e (tasksNeedingReminders now w) w = (w1, thrown)"
        by (cases "processTasks e (tasksNeedingReminders now w) w")
      then have "w' = w1" using h True by (simp add: checkDueDateReminders_def Let_def)
      then show ?thesis using processTasks_other[OF p nf] by simp
    qed
  qed
  have sent: "checkDueDateReminders e now w = (w', Processed n)
        \<and> t \<in> fst ` set (tasksNeedingReminders now w)
        \<and> u \<in> set (populate (w_users w) t) \<and> u_email u = Some a \<and> a \<noteq> []
        \<and> createOk e (task_id t) (user_id u)
      \<longrightarrow> notified (task_id t) (user_id u) w' \<and> mailed (task_id t) a w'"
  proof
    assume h: "checkDueDateReminders e now w = (w', Processed n)
        \<and> t \<in> fst ` set (tasksNeedingReminders now w)
        \<and> u \<in> set (populate (w_users w) t) \<and> u_email u = Some a \<and> a \<noteq> []
        \<and> createOk e (task_id t) (user_id u)"
    then have p: "processTasks e (tasksNeedingReminders now w) w = (w', False)"
      by (auto simp: checkDueDateReminders_def Let_def split: if_splits prod.splits)
    have m: "(t, populate (w_users w) t) \<in> set (tasksNeedingReminders now w)"
      using h by (auto simp: tasksNeedingReminders_def)
    show "notified (task_id t) (user_id u) w' \<and> mailed (task_id t) a w'"
      using processTasks_adds[OF p m, of u a] h by blast
  qed
  show ?thesis using window count quiet sent by (elim conjE, intro conjI) assumption+
qed

lemma windowWorld_scan:
  "checkDueDateReminders (okEnv 2000) 1000 windowWorld = (windowAfter, Processed 1)"
proof -
  have "snd (checkDueDateReminders (okEnv 2000) 1000 windowWorld) = Processed 1"
    by (simp add: checkDueDateReminders_def tasksNeedingReminders_def needsReminder_def
      windowWorld_def okEnv_def dueTask_def member_def populate_def List.map_filter_def
      remindUser_def sendDueDateReminder_def successCount_def findByIdAndUpdate_def Let_def)
  then show ?thesis by (simp add: windowAfter_def prod_eq_iff)
qed

text \<open>The claim at the four tasks of \<open>windowWorld\<close>: only the task due in exactly 24 hours
  is selected; the scan reports one task, notifies and mails its assignee, and does
  nothing for the task due a minute later.\<close>

theorem reminder_window_witness:
  "dueTask 1 (1000 + 24 * 60 * 60 * 1000) [7] None
     \<in> fst ` set (tasksNeedingReminders 1000 windowWorld)
   \<and> dueTask 2 (1000 + 24 * 60 * 60 * 1000 + 60 * 1000) [7] None
     \<notin> fst ` set (tasksNeedingReminders 1000 windowWorld)
   \<and> dueTask 3 1000 [7] (Some False) \<notin> fst ` set (tasksNeedingReminders 1000 windowWorld)
   \<and> (dueTask 4 (1000 + 60 * 60 * 1000) [7] None)\<lparr>status := Completed\<rparr>
     \<notin> fst ` set (tasksNeedingReminders 1000 windowWorld)
   \<and> checkDueDateReminders (okEnv 2000) 1000 windowWorld = (windowAfter, Processed 1)
   \<and> length (tasksNeedingReminders 1000 windowWorld) = 1
   \<and> notified 1 7 windowAfter \<and> mailed 1 ''a@x.io'' windowAfter
   \<and> notificationsFor 2 windowAfter = [] \<and> mailsFor 2 windowAfter = []"
proof -
  let ?t1 = "dueTask 1 (1000 + 24 * 60 * 60 * 1000) [7] None"
  let ?t2 = "dueTask 2 (1000 + 24 * 60 * 60 * 1000 + 60 * 1000) [7] None"
  have a: "?t1 \<in> fst ` set (tasksNeedingReminders 1000 windowWorld)"
    using reminder_window[of ?t1 1000 windowWorld, THEN conjunct2, THEN conjunct1]
    by (simp add: windowWorld_def dueTask_def)
  have b: "?t2 \<notin> fst ` set (tasksNeedingReminders 1000 windowWorld)"
    using reminder_window[of ?t2 1000 windowWorld, THEN conjunct2, THEN conjunct2,
        THEN conjunct1]
    by (simp add: dueTask_def)
  have c: "dueTask 3 1000 [7] (Some False)
             \<notin> fst ` set (tasksNeedingReminders 1000 windowWorld)"
    using reminder_window[of "dueTask 3 1000 [7] (Some False)" 1000 windowWorld,
        THEN conjunct2, THEN conjunct2, THEN conjunct2, THEN conjunct1]
    by (simp add: dueTask_def)
  have d: "(dueTask 4 (1000 + 60 * 60 * 1000) [7] None)\<lparr>status := Completed\<rparr>
             \<notin> fst ` set (tasksNeedingReminders 1000 windowWorld)"
    using reminder_window[of "(dueTask 4 (1000 + 60 * 60 * 1000) [7] None)\<lparr>status := Completed\<rparr>"
        1000 windowWorld, THEN conjunct1]
    by (simp add: dueTask_def)
  note rest = reminder_window[THEN conjunct2, THEN conjunct2, THEN conjunct2, THEN conjunct2]
  have n: "1 = length (tasksNeedingReminders 1000 windowWorld)"
    using rest[of "okEnv 2000" 1000 windowWorld windowAfter 1, THEN conjunct1]
      windowWorld_scan by blast
  have dist: "distinct (map task_id (w_tasks windowWorld))"
    by (simp add: windowWorld_def dueTask_def)
  have t2: "?t2 \<in> set (w_tasks windowWorld)" "task_id ?t2 = 2"
    by (simp_all add: windowWorld_def dueTask_def)
  have q: "notificationsFor 2 windowAfter = notificationsFor 2 windowWorld
           \<and> mailsFor 2 windowAfter = mailsFor 2 windowWorld"
    using rest[of "okEnv 2000" 1000 windowWorld windowAfter _ ?t2 "Processed 1",
        THEN conjunct2, THEN conjunct1] dist t2 b windowWorld_scan
    by simp
  have e0: "notificationsFor 2 windowWorld = [] \<and> mailsFor 2 windowWorld = []"
    by (simp add: notificationsFor_def mailsFor_def windowWorld_def)
  have u: "member 7 ''a@x.io'' \<in> set (populate (w_users windowWorld) ?t1)"
    "u_email (member 7 ''a@x.io'') = Some ''a@x.io''" "user_id (member 7 ''a@x.io'') = 7"
    "task_id ?t1 = 1" "createOk (okEnv 2000) 1 7"
    by (simp_all add: populate_def List.map_filter_def windowWorld_def dueTask_def member_def
        okEnv_def)
  have s: "notified 1 7 windowAfter \<and> mailed 1 ''a@x.io'' windowAfter"
    using rest[of "okEnv 2000" 1000 windowWorld windowAfter 1 ?t1 _ "member 7 ''a@x.io''"
        "''a@x.io''", THEN conjunct2, THEN conjunct2] windowWorld_scan a u
    by simp
  show ?thesis using a b c d n q e0 s windowWorld_scan by simp
qed

lemma found_remWorld:
  "tasksNeedingReminders 1000 remWorld =
     [(dueTask 1 (1000 + 10 * 60 * 60 * 1000) [7] (Some False), [member 7 ''a@x.io''])]"
  by (simp add: tasksNeedingReminders_def needsReminder_def remWorld_def dueTask_def
      member_def populate_def List.map_filter_def Let_def)

lemma overlapFirst_tasks:
  "w_tasks overlapFirst =
     [(dueTask 1 (1000 + 10 * 60 * 60 * 1000) [7] (Some False))
        \<lparr>reminderSent := Some True, reminderSentAt := Some 2000\<rparr>,
      dueTask 2 (1000 + 5 * 60 * 60 * 1000) [7] (Some True)]"
  unfolding overlapFirst_def found_remWorld
  by (simp add: remWorld_def okEnv_def dueTask_def member_def
      remindUser_def sendDueDateReminder_def successCount_def findByIdAndUpdate_def Let_def)

lemma overlapFirst_notes: "length (w_notifications overlapFirst) = 1"
  unfolding overlapFirst_def found_remWorld
  by (simp add: remWorld_def okEnv_def dueTask_def member_def
      remindUser_def sendDueDateReminder_def successCount_def findByIdAndUpdate_def Let_def)

text \<open>
  Claim C4, as stated: the write that sets \<open>reminderSent\<close> is a conditional update that
  commits only when the flag was false or unset, so two overlapping scans never both
  commit. The write has no condition: when two scans have both selected task 1 of
  \<open>remWorld\<close> before either writes, the first marks it at 2000, the second notifies again
  and overwrites the mark at 3000.
\<close>

theorem overlapping_scans_counterexample:
  "map reminderSent (w_tasks remWorld) = [Some False, Some True]
   \<and> map reminderSent (w_tasks overlapFirst) = [Some True, Some True]
   \<and> map reminderSentAt (w_tasks overlapFirst) = [Some 2000, Some 500]
   \<and> map reminderSentAt (w_tasks overlapSecond) = [Some 3000, Some 500]
   \<and> length (notificationsFor 1 overlapFirst) = 1
   \<and> length (notificationsFor 1 overlapSecond) = 2
   \<and> length (mailsFor 1 overlapSecond) = 2
   \<and> findByIdAndUpdate 1 3000 (w_tasks overlapFirst) \<noteq> w_tasks overlapFirst"
  unfolding overlapSecond_def overlapFirst_def found_remWorld
  by (simp add: remWorld_def okEnv_def
      dueTask_def member_def remindUser_def sendDueDateReminder_def successCount_def
      findByIdAndUpdate_def notificationsFor_def mailsFor_def Let_def)

text \<open>
  Claim C4, amended: the write is an unconditional update by task id. It sets
  \<open>reminderSent\<close> to true and \<open>reminderSentAt\<close> to the time of the write on the document
  with that id, whatever the flag was before, and leaves every other document as it is.
  The guard is the query of the scan: a scan that starts when the flag is set does not
  select the task and leaves the task document unchanged.
\<close>

theorem write_unconditional:
  "map task_id (findByIdAndUpdate i sentAt ts) = map task_id ts
   \<and> (\<forall>k < length ts. task_id (ts ! k) = i \<longrightarrow>
         findByIdAndUpdate i sentAt ts ! k
           = (ts ! k)\<lparr>reminderSent := Some True, reminderSentAt := Some sentAt\<rparr>)
   \<and> (\<forall>k < length ts. task_id (ts ! k) \<noteq> i \<longrightarrow> findByIdAndUpdate i sentAt ts ! k = ts ! k)
   \<and> (distinct (map task_id (w_tasks w)) \<and> t \<in> set (w_tasks w) \<and> reminderSent t = Some True
        \<and> checkDueDateReminders e now w = (w', r)
      \<longrightarrow> t \<in> set (w_tasks w') \<and> t \<notin> fst ` set (tasksNeedingReminders now w))"
proof (intro conjI impI)
  show "map task_id (findByIdAndUpdate i sentAt ts) = map task_id ts"
    by (rule findByIdAndUpdate_ids)
  show "\<forall>k < length ts. task_id (ts ! k) = i \<longrightarrow>
         findByIdAndUpdate i sentAt ts ! k
           = (ts ! k)\<lparr>reminderSent := Some True, reminderSentAt := Some sentAt\<rparr>"
    by (simp add: findByIdAndUpdate_def)
  show "\<forall>k < length ts. task_id (ts ! k) \<noteq> i \<longrightarrow> findByIdAndUpdate i sentAt ts ! k = ts ! k"
    by (simp add: findByIdAndUpdate_def)
next
  assume h: "distinct (map task_id (w_tasks w)) \<and> t \<in> set (w_tasks w)
             \<and> reminderSent t = Some True \<and> checkDueDateReminders e now w = (w', r)"
  then have d: "distinct (map task_id (w_tasks w))" and t: "t \<in> set (w_tasks w)"
    and f: "reminderSent t = Some True" and s: "checkDueDateReminders e now w = (w', r)"
    by simp_all
  show "t \<in> set (w_tasks w')" using scan_skips_reminded[OF d t f s] by simp
  have "task_id t \<notin> task_id ` fst ` set (tasksNeedingReminders now w)"
    by (rule reminded_not_found[OF d t f])
  then show "t \<notin> fst ` set (tasksNeedingReminders now w)" by blast
qed

text \<open>The amended claim after the first scan of \<open>remWorld\<close>: the bare write would move
  the mark of task 1 from 2000 to 3000; a second scan leaves it at 2000.\<close>

theorem write_unconditional_witness:
  "map reminderSent (w_tasks afterFirstScan) = [Some True, Some True]
   \<and> map reminderSentAt (w_tasks afterFirstScan) = [Some 2000, Some 500]
   \<and> map reminderSentAt (findByIdAndUpdate 1 3000 (w_tasks afterFirstScan))
       = [Some 3000, Some 500]
   \<and> map reminderSentAt (w_tasks afterSecondScan) = [Some 2000, Some 500]"
proof -
  let ?t1 = "(dueTask 1 (1000 + 10 * 60 * 60 * 1000) [7] (Some False))
               \<lparr>reminderSent := Some True, reminderSentAt := Some 2000\<rparr>"
  let ?t2 = "dueTask 2 (1000 + 5 * 60 * 60 * 1000) [7] (Some True)"
  have ts: "w_tasks afterFirstScan = [?t1, ?t2]" by (rule afterFirstScan_tasks)
  have d: "distinct (map task_id (w_tasks afterFirstScan))" by (simp add: ts dueTask_def)
  have s2: "checkDueDateReminders (okEnv 3000) 1000 afterFirstScan =
              (afterSecondScan, snd (checkDueDateReminders (okEnv 3000) 1000 afterFirstScan))"
    by (simp add: afterSecondScan_def)
  have k0: "findByIdAndUpdate 1 3000 (w_tasks afterFirstScan) ! 0
            = ?t1\<lparr>reminderSent := Some True, reminderSentAt := Some 3000\<rparr>"
    using write_unconditional[of 1 3000 "w_tasks afterFirstScan", THEN conjunct2,
        THEN conjunct1, rule_format, of 0]
    by (simp add: ts dueTask_def)
  have k1: "findByIdAndUpdate 1 3000 (w_tasks afterFirstScan) ! 1 = ?t2"
    using write_unconditional[of 1 3000 "w_tasks afterFirstScan", THEN conjunct2,
        THEN conjunct2, THEN conjunct1, rule_format, of 1]
    by (simp add: ts dueTask_def)
  have len: "length (findByIdAndUpdate 1 3000 (w_tasks afterFirstScan)) = 2"
    by (simp add: findByIdAndUpdate_def ts)
  have upd: "findByIdAndUpdate 1 3000 (w_tasks afterFirstScan)
             = [?t1\<lparr>reminderSent := Some True, reminderSentAt := Some 3000\<rparr>, ?t2]"
    using k0 k1 len by (simp add: list_eq_iff_nth_eq less_Suc_eq numeral_2_eq_2)
  have keep1: "?t1 \<in> set (w_tasks afterSecondScan)"
    using write_unconditional[of _ _ _ afterFirstScan ?t1 "okEnv 3000" 1000 afterSecondScan,
        THEN conjunct2, THEN conjunct2, THEN conjunct2] d s2
    by (simp add: ts dueTask_def)
  have keep2: "?t2 \<in> set (w_tasks afterSecondScan)"
    using write_unconditional[of _ _ _ afterFirstScan ?t2 "okEnv 3000" 1000 afterSecondScan,
        THEN conjunct2, THEN conjunct2, THEN conjunct2] d s2
    by (simp add: ts dueTask_def)
  have ids: "map task_id (w_tasks afterSecondScan) = [1, 2]"
    using scan_ids[OF s2] by (simp add: ts dueTask_def)
  have second: "w_tasks afterSecondScan = [?t1, ?t2]"
  proof -
    obtain a b where ab: "w_tasks afterSecondScan = [a, b]" "task_id a = 1" "task_id b = 2"
      using ids by auto
    have "a = ?t1" using keep1 ab by (auto simp: dueTask_def)
    moreover have "b = ?t2" using keep2 ab by (auto simp: dueTask_def)
    ultimately show ?thesis using ab by simp
  qed
  show ?thesis unfolding upd second unfolding ts by (simp add: dueTask_def)
qed

section \<open>Properties of the status and checklist updates\<close>


















end
